theory Spec2Isabelle
  imports Complex_Main
begin

section \<open>Strings and regular expressions as the Python code uses them\<close>

text \<open>
  Python strings are modelled as \<^typ>\<open>string\<close> (lists of 8-bit characters), so the
  development covers ASCII text: \<open>len\<close> is \<^const>\<open>length\<close>, \<open>str.lower\<close> maps
  \<open>A..Z\<close> to \<open>a..z\<close>, and the whitespace class of \<open>str.strip\<close>, \<open>str.split()\<close>
  and the pattern \<open>\s\<close> is the ASCII part of \<open>str.isspace\<close>: the characters
  9 to 13, 28 to 31 and the blank.
\<close>

definition is_space :: "char \<Rightarrow> bool" where
  "is_space c = (let n = (of_char c :: nat) in (9 \<le> n \<and> n \<le> 13) \<or> (28 \<le> n \<and> n \<le> 31) \<or> n = 32)"

definition is_digit :: "char \<Rightarrow> bool" where
  "is_digit c = (let n = (of_char c :: nat) in 48 \<le> n \<and> n \<le> 57)"

definition is_upper :: "char \<Rightarrow> bool" where
  "is_upper c = (let n = (of_char c :: nat) in 65 \<le> n \<and> n \<le> 90)"

definition is_lower :: "char \<Rightarrow> bool" where
  "is_lower c = (let n = (of_char c :: nat) in 97 \<le> n \<and> n \<le> 122)"

definition lower_char :: "char \<Rightarrow> char" where
  "lower_char c = (if is_upper c then char_of ((of_char c :: nat) + 32) else c)"

definition lower :: "string \<Rightarrow> string" where
  "lower s = map lower_char s"

definition strip :: "string \<Rightarrow> string" where
  "strip s = rev (dropWhile is_space (rev (dropWhile is_space s)))"

text \<open>\<open>sub in s\<close> on strings: \<open>sub\<close> occurs in \<open>s\<close> as a contiguous block.\<close>

fun starts_with :: "string \<Rightarrow> string \<Rightarrow> bool" where
  "starts_with [] s = True"
| "starts_with (p # ps) [] = False"
| "starts_with (p # ps) (c # cs) = (p = c \<and> starts_with ps cs)"

fun contains :: "string \<Rightarrow> string \<Rightarrow> bool" where
  "contains sub [] = (sub = [])"
| "contains sub (c # cs) = (starts_with sub (c # cs) \<or> contains sub cs)"

text \<open>\<open>sep.join(parts)\<close>.\<close>

fun join :: "string \<Rightarrow> string list \<Rightarrow> string" where
  "join sep [] = []"
| "join sep [p] = p"
| "join sep (p # q # ps) = p @ sep @ join sep (q # ps)"

text \<open>
  \<open>s.split(c)\<close> for a one-character separator: the pieces between the occurrences of
  \<open>c\<close>, empty pieces included; the result is never empty (\<open>''''.split(c) = ['''']\<close>).
\<close>

fun split_on :: "char \<Rightarrow> string \<Rightarrow> string list" where
  "split_on c [] = [[]]"
| "split_on c (x # xs) =
     (if x = c then [] # split_on c xs
      else (case split_on c xs of
              w # ws \<Rightarrow> (x # w) # ws
            | [] \<Rightarrow> [[x]]))"

text \<open>
  \<open>len(s.split())\<close>: the number of maximal runs of non-whitespace characters. The flag
  tells whether the scan is inside a word.
\<close>

fun count_words :: "bool \<Rightarrow> string \<Rightarrow> nat" where
  "count_words inw [] = 0"
| "count_words inw (c # cs) =
     (if is_space c then count_words False cs
      else if inw then count_words True cs
      else Suc (count_words True cs))"

text \<open>
  The patterns of the code use character classes, concatenation, alternation-free groups,
  \<open>+\<close> and \<open>*\<close>, the anchor \<open>^\<close> (implied by \<open>re.match\<close>) and a final \<open>$\<close>. Whether
  \<open>re.match\<close> finds a match is then whether some prefix of the text lies in the language
  of the pattern; it is decided here by derivatives.
\<close>

datatype rexp =
    RFail
  | REps
  | RSym "char \<Rightarrow> bool"
  | RAlt rexp rexp
  | RCat rexp rexp
  | RStar rexp

fun nullable :: "rexp \<Rightarrow> bool" where
  "nullable RFail = False"
| "nullable REps = True"
| "nullable (RSym p) = False"
| "nullable (RAlt r s) = (nullable r \<or> nullable s)"
| "nullable (RCat r s) = (nullable r \<and> nullable s)"
| "nullable (RStar r) = True"

fun deriv :: "char \<Rightarrow> rexp \<Rightarrow> rexp" where
  "deriv c RFail = RFail"
| "deriv c REps = RFail"
| "deriv c (RSym p) = (if p c then REps else RFail)"
| "deriv c (RAlt r s) = RAlt (deriv c r) (deriv c s)"
| "deriv c (RCat r s) =
     (if nullable r then RAlt (RCat (deriv c r) s) (deriv c s) else RCat (deriv c r) s)"
| "deriv c (RStar r) = RCat (deriv c r) (RStar r)"

definition RPlus :: "rexp \<Rightarrow> rexp" where
  "RPlus r = RCat r (RStar r)"

definition RLit :: "char \<Rightarrow> rexp" where
  "RLit c = RSym (\<lambda>x. x = c)"

text \<open>\<open>re.match(p, s)\<close> is not \<open>None\<close>, for a pattern \<open>p\<close> without a final \<open>$\<close>.\<close>

fun re_match :: "rexp \<Rightarrow> string \<Rightarrow> bool" where
  "re_match r [] = nullable r"
| "re_match r (c # cs) = (nullable r \<or> re_match (deriv c r) cs)"

text \<open>
  \<open>re.match(p$, s)\<close> is not \<open>None\<close>: \<open>$\<close> holds at the end of the text and just before a
  newline that ends the text.
\<close>

fun re_match_end :: "rexp \<Rightarrow> string \<Rightarrow> bool" where
  "re_match_end r [] = nullable r"
| "re_match_end r (c # cs) =
     ((nullable r \<and> c = CHR 0x0A \<and> cs = []) \<or> re_match_end (deriv c r) cs)"

section \<open>Challenge 1a: outline extraction\<close>

subsection \<open>Data\<close>

text \<open>A heading level is the string \<open>H<n>\<close>; the number is kept.\<close>

datatype level = H int

text \<open>An outline entry \<open>{"level": .., "text": .., "page": ..}\<close>.\<close>

record heading =
  h_level :: level
  h_text :: string
  h_page :: int

text \<open>
  A span of the PDF reader: its text, its font size (a float, read here as the real
  number it denotes) and its style flags, which may be absent.
\<close>

record span =
  span_text :: string
  span_size :: real
  span_flags :: "int option"

subsection \<open>\<open>detect_heading_level\<close>\<close>

definition CUSTOM_KEYWORDS :: "string list" where
  "CUSTOM_KEYWORDS =
    [''Revision History'', ''Table of Contents'', ''Acknowledgements'', ''References'',
     ''Appendix'', ''Summary'', ''Background'', ''Milestones'', ''Evaluation'', ''Business Plan'',
     ''Proposal'', ''Terms of Reference'', ''Membership'', ''Chair'', ''Meetings'',
     ''Financial and Administrative Policies'']"

definition HEADING_MIN_LENGTH :: nat where
  "HEADING_MIN_LENGTH = 4"

text \<open>The pattern \<open>^(\d+\.)+\s\<close>.\<close>

definition numbered_pattern :: rexp where
  "numbered_pattern = RCat (RPlus (RCat (RPlus (RSym is_digit)) (RLit CHR ''.''))) (RSym is_space)"

definition numbered :: "string \<Rightarrow> bool" where
  "numbered t = re_match numbered_pattern t"

text \<open>\<open>text.count('.')\<close>.\<close>

definition count_dots :: "string \<Rightarrow> nat" where
  "count_dots t = length (filter (\<lambda>c. c = CHR ''.'') t)"

definition get_flags :: "span \<Rightarrow> int" where
  "get_flags sp = (case span_flags sp of None \<Rightarrow> 0 | Some f \<Rightarrow> f)"

text \<open>
  The previous font size is \<open>None\<close> at the first span; \<open>None\<close> and \<open>0\<close> are both false
  in the test \<open>prev_fontsize and ...\<close>.
\<close>

definition detect_heading_level :: "string \<Rightarrow> span \<Rightarrow> real option \<Rightarrow> level option" where
  "detect_heading_level t sp prev_fontsize =
     (if numbered t then
        (let num_dots = count_dots t in
         if num_dots = 1 then Some (H 1)
         else if num_dots = 2 then Some (H 2)
         else Some (H 3))
      else if (\<exists>kw \<in> set CUSTOM_KEYWORDS. contains (lower kw) (lower t)) then Some (H 1)
      else if (case prev_fontsize of None \<Rightarrow> False | Some p \<Rightarrow> p \<noteq> 0 \<and> span_size sp > p)
        then Some (H 1)
      else if bit (get_flags sp) 1 \<or> span_size sp \<ge> 16 then Some (H 1)
      else if span_size sp \<ge> 14 then Some (H 2)
      else if span_size sp \<ge> 12 then Some (H 3)
      else None)"

subsection \<open>\<open>clean_outline\<close>\<close>

text \<open>
  The first loop, with its variables \<open>cleaned\<close> and \<open>last\<close> as arguments (\<open>last_item\<close> here): an
  item on the page and at the level of \<open>last\<close> is appended to the text of \<open>last\<close>.
\<close>

fun merge_loop :: "heading list \<Rightarrow> heading option \<Rightarrow> heading list \<Rightarrow> heading list" where
  "merge_loop cleaned last_item [] = (case last_item of None \<Rightarrow> cleaned | Some l \<Rightarrow> cleaned @ [l])"
| "merge_loop cleaned last_item (item # outline) =
     (case last_item of
        None \<Rightarrow> merge_loop cleaned (Some item) outline
      | Some l \<Rightarrow>
          if h_page item = h_page l \<and> h_level item = h_level l
          then merge_loop cleaned (Some (l\<lparr>h_text := h_text l @ '' '' @ h_text item\<rparr>)) outline
          else merge_loop (cleaned @ [l]) (Some item) outline)"

definition merge_fragments :: "heading list \<Rightarrow> heading list" where
  "merge_fragments outline = merge_loop [] None outline"

definition valid_heading :: "heading \<Rightarrow> bool" where
  "valid_heading o' = (length (h_text o') \<ge> HEADING_MIN_LENGTH \<or> numbered (h_text o'))"

definition noise_filter :: "heading list \<Rightarrow> heading list" where
  "noise_filter cleaned = filter valid_heading cleaned"

text \<open>The last loop: the key \<open>(level, text, page)\<close> is the whole entry.\<close>

fun dedup_loop :: "heading set \<Rightarrow> heading list \<Rightarrow> heading list" where
  "dedup_loop seen [] = []"
| "dedup_loop seen (o' # filtered) =
     (if o' \<notin> seen then o' # dedup_loop (insert o' seen) filtered
      else dedup_loop seen filtered)"

definition remove_duplicates :: "heading list \<Rightarrow> heading list" where
  "remove_duplicates filtered = dedup_loop {} filtered"

definition clean_outline :: "heading list \<Rightarrow> heading list" where
  "clean_outline outline = remove_duplicates (noise_filter (merge_fragments outline))"

subsection \<open>The PDF as the reader presents it\<close>

text \<open>
  A page is a list of blocks; a block has lines only when it is a text block; a line is a
  list of spans. The table of contents is a list of \<open>[level, title, page]\<close>. An absent
  metadata title is the empty string.
\<close>

type_synonym pdf_line = "span list"
type_synonym pdf_block = "pdf_line list option"
type_synonym pdf_page = "pdf_block list"

record pdf_doc =
  metadata_title :: string
  toc :: "(int \<times> string \<times> int) list"
  pages :: "pdf_page list"

text \<open>The spans of a page in the order in which the three nested loops visit them.\<close>

definition page_spans :: "pdf_page \<Rightarrow> span list" where
  "page_spans blocks = concat (concat (map (\<lambda>b. case b of None \<Rightarrow> [] | Some ls \<Rightarrow> ls) blocks))"

subsection \<open>\<open>extract_pdf_outline\<close>\<close>

text \<open>The fallback loop over the first page, on \<open>(max_fontsize, title_candidate)\<close>.\<close>

fun title_scan :: "real \<times> string \<Rightarrow> span list \<Rightarrow> real \<times> string" where
  "title_scan (max_fontsize, title_candidate) [] = (max_fontsize, title_candidate)"
| "title_scan (max_fontsize, title_candidate) (sp # sps) =
     (let t = strip (span_text sp) in
      if span_size sp > max_fontsize \<and> t \<noteq> []
      then title_scan (span_size sp, t) sps
      else title_scan (max_fontsize, title_candidate) sps)"

definition toc_entry :: "int \<times> string \<times> int \<Rightarrow> heading" where
  "toc_entry item = (case item of (lv, t, pg) \<Rightarrow> \<lparr>h_level = H lv, h_text = t, h_page = pg\<rparr>)"

definition extract_pdf_outline :: "pdf_doc \<Rightarrow> string \<times> heading list" where
  "extract_pdf_outline doc =
     (let outline = map toc_entry (toc doc);
          title = metadata_title doc;
          title' = (case pages doc of
                      first_page # _ \<Rightarrow>
                        if title = [] then snd (title_scan (0, []) (page_spans first_page))
                        else title
                    | [] \<Rightarrow> title)
      in (title', outline))"

subsection \<open>\<open>extract_outline_by_signals\<close>\<close>

record signal_state =
  sg_outline :: "heading list"
  sg_max_fontsize :: real
  sg_title_candidate :: string
  sg_prev_fontsize :: "real option"

text \<open>The body of the innermost loop, for one span of page \<open>page_num\<close>.\<close>

definition signal_span :: "int \<Rightarrow> signal_state \<Rightarrow> span \<Rightarrow> signal_state" where
  "signal_span page_num st sp =
     (let t = strip (span_text sp) in
      if t = [] then st
      else
        let st1 = (if page_num = 1 \<and> span_size sp > sg_max_fontsize st
                   then st\<lparr>sg_max_fontsize := span_size sp, sg_title_candidate := t\<rparr>
                   else st);
            lv = detect_heading_level t sp (sg_prev_fontsize st1);
            st2 = st1\<lparr>sg_prev_fontsize := Some (span_size sp)\<rparr>
        in (case lv of
              None \<Rightarrow> st2
            | Some l \<Rightarrow>
                st2\<lparr>sg_outline := sg_outline st2 @ [\<lparr>h_level = l, h_text = t, h_page = page_num\<rparr>]\<rparr>))"

text \<open>The loop over the pages, numbered from \<open>page_num\<close>.\<close>

fun signal_pages :: "int \<Rightarrow> signal_state \<Rightarrow> pdf_page list \<Rightarrow> signal_state" where
  "signal_pages page_num st [] = st"
| "signal_pages page_num st (page # rest) =
     signal_pages (page_num + 1) (foldl (signal_span page_num) st (page_spans page)) rest"

definition extract_outline_by_signals :: "pdf_doc \<Rightarrow> string \<times> heading list" where
  "extract_outline_by_signals doc =
     (let st = signal_pages 1
                 \<lparr>sg_outline = [], sg_max_fontsize = 0, sg_title_candidate = [],
                  sg_prev_fontsize = None\<rparr>
                 (pages doc)
      in (sg_title_candidate st, sg_outline st))"

subsection \<open>\<open>process_pdfs\<close>: the body of the loop, for one PDF\<close>

definition process_pdf :: "pdf_doc \<Rightarrow> string \<times> heading list" where
  "process_pdf doc =
     (case extract_pdf_outline doc of
        (title, outline) \<Rightarrow>
          (case (if outline = [] then extract_outline_by_signals doc else (title, outline)) of
             (title', outline') \<Rightarrow> (title', clean_outline outline')))"

section \<open>Challenge 1b: sections of a collection, ranked for a persona\<close>

subsection \<open>\<open>FinalPDFProcessor\<close>\<close>

record doc_section =
  sec_title :: string
  sec_page_number :: int
  sec_start_line :: nat
  sec_content :: "string list"
  sec_document :: "string option"

text \<open>The text of a PDF, a dictionary from page numbers to page texts, in its order.\<close>

type_synonym page_texts = "(int \<times> string) list"

fun RSeq :: "rexp list \<Rightarrow> rexp" where
  "RSeq [] = REps"
| "RSeq [r] = r"
| "RSeq (r # rs) = RCat r (RSeq rs)"

definition not_char :: "char \<Rightarrow> char \<Rightarrow> bool" where
  "not_char c x = (x \<noteq> c)"

definition upper_or_space :: "char \<Rightarrow> bool" where
  "upper_or_space c = (is_upper c \<or> is_space c)"

text \<open>\<open>[A-Z][a-z]+\<close> and \<open>(?:\s+[a-z]+)*\<close>, which most of the patterns share.\<close>

definition cap_word :: rexp where
  "cap_word = RCat (RSym is_upper) (RPlus (RSym is_lower))"

definition lower_words :: rexp where
  "lower_words = RStar (RCat (RPlus (RSym is_space)) (RPlus (RSym is_lower)))"

text \<open>
  \<open>self.section_patterns\<close>, each pattern without its final \<open>$\<close>, in the order of the
  source:
  \<^enum> \<^verbatim>\<open>^[A-Z][A-Z\s]{2,}$\<close>
  \<^enum> \<^verbatim>\<open>^\d+\.\s+[A-Z][^.]*$\<close>
  \<^enum> \<^verbatim>\<open>^[A-Z][a-z]+(?:\s+[A-Z][a-z]+)*$\<close>
  \<^enum> \<^verbatim>\<open>^[A-Z][^.]*:$\<close>
  \<^enum> \<^verbatim>\<open>^[A-Z][a-z]+(?:\s+[a-z]+)*\s+\([^)]+\)$\<close>
  \<^enum> \<^verbatim>\<open>^[A-Z][a-z]+(?:\s+[a-z]+)*\s+[A-Z][a-z]+$\<close>
  \<^enum> \<^verbatim>\<open>^[A-Z][a-z]+(?:\s+[a-z]+)*$\<close>
  \<^enum> \<^verbatim>\<open>^[A-Z][a-z]+(?:\s+[a-z]+)*\s+[A-Z][a-z]+(?:\s+[a-z]+)*$\<close>
\<close>

definition section_patterns :: "rexp list" where
  "section_patterns =
    [ RSeq [RSym is_upper, RSym upper_or_space, RSym upper_or_space, RStar (RSym upper_or_space)],
      RSeq [RPlus (RSym is_digit), RLit CHR ''.'', RPlus (RSym is_space), RSym is_upper,
            RStar (RSym (not_char CHR ''.''))],
      RSeq [cap_word, RStar (RCat (RPlus (RSym is_space)) cap_word)],
      RSeq [RSym is_upper, RStar (RSym (not_char CHR ''.'')), RLit CHR '':''],
      RSeq [cap_word, lower_words, RPlus (RSym is_space), RLit CHR ''('',
            RPlus (RSym (not_char CHR '')'')), RLit CHR '')''],
      RSeq [cap_word, lower_words, RPlus (RSym is_space), cap_word],
      RSeq [cap_word, lower_words],
      RSeq [cap_word, lower_words, RPlus (RSym is_space), cap_word, lower_words] ]"

definition header_indicators :: "string list" where
  "header_indicators =
    [''comprehensive guide'', ''coastal adventures'', ''culinary experiences'',
     ''packing tips'', ''nightlife'', ''entertainment'', ''water sports'',
     ''change flat forms'', ''create multiple'', ''convert clipboard'',
     ''fill and sign'', ''send document'', ''falafel'', ''ratatouille'',
     ''baba ganoush'', ''veggie sushi'', ''vegetable lasagna'']"

definition is_section_header :: "string \<Rightarrow> bool" where
  "is_section_header line =
     (if length line < 3 \<or> length line > 250 then False
      else if (\<exists>pattern \<in> set section_patterns. re_match_end pattern line) then True
      else if re_match_end (RSeq [cap_word, lower_words]) line \<and> count_words False line \<le> 8
        then True
      else if re_match (RCat (RSym is_upper) (RSym is_lower)) line \<and> count_words False line \<le> 10
        then True
      else if (\<exists>indicator \<in> set header_indicators. contains indicator (lower line)) then True
      else False)"

text \<open>\<open>enumerate(lines)\<close>.\<close>

definition enumerate_from0 :: "'a list \<Rightarrow> (nat \<times> 'a) list" where
  "enumerate_from0 xs = zip [0..<length xs] xs"

definition new_section :: "string \<Rightarrow> int \<Rightarrow> nat \<Rightarrow> doc_section" where
  "new_section line page_num line_num =
     \<lparr>sec_title = line, sec_page_number = page_num, sec_start_line = line_num,
      sec_content = [], sec_document = None\<rparr>"

text \<open>
  Closing the open section, if there is one: its content is the accumulated lines and it
  is appended to \<open>sections\<close>.
\<close>

definition close_section :: "doc_section list \<Rightarrow> doc_section option \<Rightarrow> string list \<Rightarrow> doc_section list" where
  "close_section sections current_section section_content =
     (case current_section of
        None \<Rightarrow> sections
      | Some cur \<Rightarrow> sections @ [cur\<lparr>sec_content := section_content\<rparr>])"

text \<open>
  The loop over the lines of one page, on the variables \<open>sections\<close>, \<open>current_section\<close>
  and \<open>section_content\<close>.
\<close>

fun line_loop ::
  "int \<Rightarrow> doc_section list \<Rightarrow> doc_section option \<Rightarrow> string list \<Rightarrow> (nat \<times> string) list
   \<Rightarrow> doc_section list \<times> doc_section option \<times> string list" where
  "line_loop page_num sections current_section section_content [] =
     (sections, current_section, section_content)"
| "line_loop page_num sections current_section section_content ((line_num, raw) # rest) =
     (let line = strip raw in
      if line = [] then line_loop page_num sections current_section section_content rest
      else if is_section_header line then
        line_loop page_num (close_section sections current_section section_content)
          (Some (new_section line page_num line_num)) [] rest
      else if current_section \<noteq> None then
        line_loop page_num sections current_section (section_content @ [line]) rest
      else line_loop page_num sections current_section section_content rest)"

text \<open>
  The loop over the pages: \<open>current_section\<close> and \<open>section_content\<close> are set anew for
  every page, and the section open at the end of a page is closed there.
\<close>

fun page_loop :: "doc_section list \<Rightarrow> page_texts \<Rightarrow> doc_section list" where
  "page_loop sections [] = sections"
| "page_loop sections ((page_num, txt) # rest) =
     (case line_loop page_num sections None [] (enumerate_from0 (split_on CHR 0x0A txt)) of
        (sections', current_section, section_content) \<Rightarrow>
          page_loop (close_section sections' current_section section_content) rest)"

definition identify_sections :: "page_texts \<Rightarrow> doc_section list" where
  "identify_sections pgs = page_loop [] pgs"

subsection \<open>\<open>FinalRelevanceScorer\<close>\<close>

text \<open>The two keyword dictionaries, as association lists; \<open>dict.get(key, [])\<close>.\<close>

definition persona_keywords :: "(string \<times> string list) list" where
  "persona_keywords =
    [(''travel planner'',
       [''travel'', ''trip'', ''itinerary'', ''accommodation'', ''hotel'', ''restaurant'',
        ''attraction'', ''activity'', ''planning'', ''schedule'', ''booking'', ''reservation'',
        ''transport'', ''transportation'', ''guide'', ''tour'', ''visit'', ''explore'', ''city'',
        ''coastal'', ''adventure'', ''nightlife'', ''entertainment'', ''cuisine'', ''culture'',
        ''comprehensive'', ''major cities'', ''coastal adventures'', ''culinary experiences'',
        ''packing tips'', ''tips and tricks'', ''water sports'', ''beach'', ''mediterranean'']),
     (''hr professional'',
       [''form'', ''fillable'', ''onboarding'', ''compliance'', ''employee'', ''hr'',
        ''human resources'', ''document'', ''signature'', ''e-signature'', ''workflow'',
        ''process'', ''template'', ''field'', ''input'', ''validation'', ''create'', ''convert'',
        ''edit'', ''export'', ''share'', ''request'', ''send'', ''signatures'', ''change flat forms'',
        ''create multiple pdfs'', ''convert clipboard'', ''fill and sign'', ''send document'']),
     (''food contractor'',
       [''recipe'', ''cooking'', ''ingredient'', ''meal'', ''dish'', ''cuisine'',
        ''vegetarian'', ''buffet'', ''dinner'', ''lunch'', ''breakfast'', ''menu'',
        ''preparation'', ''cooking time'', ''serving'', ''portion'', ''nutrition'',
        ''falafel'', ''ratatouille'', ''baba ganoush'', ''sushi'', ''lasagna'', ''vegetable'',
        ''veggie sushi rolls'', ''vegetable lasagna'', ''escalivada'', ''macaroni''])]"

definition job_keywords :: "(string \<times> string list) list" where
  "job_keywords =
    [(''plan a trip'',
       [''itinerary'', ''schedule'', ''accommodation'', ''transport'', ''attraction'',
        ''activity'', ''booking'', ''reservation'', ''guide'', ''tour'', ''cities'', ''coastal'',
        ''adventures'', ''nightlife'', ''entertainment'', ''tips'', ''tricks'', ''comprehensive guide'',
        ''coastal adventures'', ''culinary experiences'', ''packing tips'', ''water sports'']),
     (''create and manage fillable forms'',
       [''form'', ''fillable'', ''field'', ''input'', ''signature'',
        ''e-signature'', ''template'', ''workflow'', ''process'', ''create'',
        ''convert'', ''edit'', ''export'', ''request'', ''send'', ''change flat forms'',
        ''create multiple pdfs'', ''convert clipboard'', ''fill and sign'',
        ''send document'']),
     (''prepare vegetarian buffet'',
       [''recipe'', ''vegetarian'', ''buffet'', ''ingredient'', ''cooking'',
        ''meal'', ''dish'', ''preparation'', ''serving'', ''menu'', ''falafel'',
        ''ratatouille'', ''baba ganoush'', ''sushi'', ''lasagna'', ''vegetable'',
        ''veggie sushi rolls'', ''vegetable lasagna''])]"

definition sample_titles :: "(string \<times> string list) list" where
  "sample_titles =
    [(''travel planner'',
       [''comprehensive guide to major cities'', ''coastal adventures'', ''culinary experiences'',
        ''packing tips'', ''nightlife and entertainment'']),
     (''hr professional'',
       [''change flat forms to fillable'', ''create multiple pdfs'', ''convert clipboard'',
        ''fill and sign'', ''send document'']),
     (''food contractor'',
       [''falafel'', ''ratatouille'', ''baba ganoush'', ''veggie sushi rolls'', ''vegetable lasagna''])]"

definition bonus_terms :: "string list" where
  "bonus_terms = [''form'', ''fillable'', ''falafel'', ''ratatouille'', ''coastal'', ''comprehensive'']"

definition get_list :: "(string \<times> string list) list \<Rightarrow> string \<Rightarrow> string list" where
  "get_list d k = (case map_of d k of None \<Rightarrow> [] | Some v \<Rightarrow> v)"

text \<open>The list \<open>all_keywords\<close>: the persona's keywords followed by the job's.\<close>

definition all_keywords :: "string \<Rightarrow> string \<Rightarrow> string list" where
  "all_keywords persona job =
     get_list persona_keywords (lower persona) @ get_list job_keywords (lower job)"

definition section_content_text :: "doc_section \<Rightarrow> string" where
  "section_content_text s = lower (join '' '' (sec_content s))"

text \<open>The sums \<open>keyword_matches\<close> and \<open>title_relevance\<close>: one for each list position.\<close>

definition keyword_matches :: "doc_section \<Rightarrow> string \<Rightarrow> string \<Rightarrow> nat" where
  "keyword_matches s persona job =
     length (filter (\<lambda>keyword. contains keyword (section_content_text s)
                              \<or> contains keyword (lower (sec_title s)))
               (all_keywords persona job))"

definition title_relevance :: "doc_section \<Rightarrow> string \<Rightarrow> string \<Rightarrow> nat" where
  "title_relevance s persona job =
     length (filter (\<lambda>keyword. contains keyword (lower (sec_title s))) (all_keywords persona job))"

text \<open>
  The score is a Python float, an IEEE 754 binary64 number. It is modelled by the real
  number it denotes, and every float operation by the exact operation followed by the
  rounding \<open>binary64\<close> to the nearest binary64 number, ties to the even significand.
  For \<open>x\<close> with \<open>2 ^ e \<le> \<bar>x\<bar> < 2 ^ (e + 1)\<close> the binary64 numbers around \<open>x\<close> are
  the multiples of \<open>2 ^ (e - 52)\<close>; below \<open>2 ^ - 1022\<close> they are the multiples of
  \<open>2 ^ - 1074\<close>. Overflow is not modelled: it needs \<open>\<bar>x\<bar> \<ge> 2 ^ 1024\<close>, and a score is
  below 2000. The integers of the score (at most twice and ten times the number of
  keywords, 20 and 30) are binary64 numbers, so that an integer operation of the code and
  its rounded reading give the same number.
\<close>

text \<open>The exponent \<open>e\<close> with \<open>2 ^ e \<le> x < 2 ^ (e + 1)\<close>, for \<open>x > 0\<close>, found in at most \<open>fuel\<close> steps.\<close>

fun norm_exp :: "nat \<Rightarrow> real \<Rightarrow> int \<Rightarrow> int" where
  "norm_exp 0 x e = e"
| "norm_exp (Suc fuel) x e =
     (if 2 \<le> x then norm_exp fuel (x / 2) (e + 1)
      else if x < 1 then norm_exp fuel (x * 2) (e - 1)
      else e)"

definition pow2 :: "int \<Rightarrow> real" where
  "pow2 e = (if 0 \<le> e then 2 ^ nat e else 1 / 2 ^ nat (- e))"

text \<open>The nearest integer, the even one of the two when they are equally near.\<close>

definition round_half_even :: "real \<Rightarrow> int" where
  "round_half_even m =
     (let f = \<lfloor>m\<rfloor>; d = m - real_of_int f in
      if d < 1 / 2 then f
      else if 1 / 2 < d then f + 1
      else if even f then f else f + 1)"

definition binary64 :: "real \<Rightarrow> real" where
  "binary64 x =
     (if x = 0 then 0
      else
        let a = \<bar>x\<bar>;
            e = max (norm_exp 2200 a 0) (- 1022);
            q = pow2 (e - 52)
        in sgn x * real_of_int (round_half_even (a / q)) * q)"

text \<open>
  \<open>score_section\<close>: the sum of the two integer terms and the length term is one float
  addition (the integer terms are added as integers first); each bonus is one more float
  addition, the sample-title bonus once for every sample title that the title contains.
\<close>

definition score_section :: "doc_section \<Rightarrow> string \<Rightarrow> string \<Rightarrow> real" where
  "score_section s persona job =
     (let title = lower (sec_title s);
          content_length = count_words False (section_content_text s);
          score = binary64
                    (real (keyword_matches s persona job * 2 + title_relevance s persona job * 10)
                     + min (binary64 (real content_length / 50)) 3);
          score = (if (\<exists>term \<in> set bonus_terms. contains term (lower title))
                   then binary64 (score + 20) else score)
      in foldl (\<lambda>score sample_title.
                  if contains sample_title (lower title) then binary64 (score + 30) else score)
           score (get_list sample_titles (lower persona)))"

subsection \<open>\<open>FinalCollectionProcessor\<close>\<close>

text \<open>\<open>re.sub(r'\s+', ' ', text)\<close>; the flag tells whether the scan is inside a run.\<close>

fun collapse_ws :: "bool \<Rightarrow> string \<Rightarrow> string" where
  "collapse_ws in_run [] = []"
| "collapse_ws in_run (c # cs) =
     (if is_space c then (if in_run then collapse_ws True cs else CHR '' '' # collapse_ws True cs)
      else c # collapse_ws False cs)"

definition extract_refined_text :: "string list \<Rightarrow> string" where
  "extract_refined_text content_lines =
     (if content_lines = [] then []
      else
        let t = join '' '' content_lines;
            t = collapse_ws False t;
            t = (if length t > 500 then
                   (let sentences = split_on CHR ''.'' t in
                    if length sentences > 1 then join ''. '' (take 2 sentences) @ ''.''
                    else take 500 t)
                 else t)
        in strip t)"

text \<open>The entries of the two output lists.\<close>

record extracted_entry =
  es_document :: string
  es_section_title :: string
  es_importance_rank :: nat
  es_page_number :: int

record subsection_entry =
  sa_document :: string
  sa_refined_text :: string
  sa_page_number :: int

text \<open>The metadata of the output, without the timestamp, which is read from the clock.\<close>

record run_metadata =
  md_input_documents :: "string list"
  md_persona :: string
  md_job_to_be_done :: string

record run_output =
  out_metadata :: run_metadata
  extracted_sections :: "extracted_entry list"
  subsection_analysis :: "subsection_entry list"

text \<open>
  The input configuration as the code reads it: the \<open>filename\<close> of every entry of
  \<open>documents\<close>, the \<open>role\<close> of \<open>persona\<close> and the \<open>task\<close> of \<open>job_to_be_done\<close>, each
  empty when the key is absent.
\<close>

record input_config =
  cfg_documents :: "string list"
  cfg_persona :: string
  cfg_job :: string

datatype json_file = Invalid_json | Json input_config

text \<open>
  A collection directory: the file \<open>challenge1b_input.json\<close> if it exists; the directories
  \<open>PDFs\<close> and \<open>PDFS\<close> if they exist, each a map from the paths that exist below it to what
  \<open>extract_text_from_pdf\<close> returns for them (the page texts, or the one page holding the
  error text when the PDF reader fails); and whether the output file can be written.
\<close>

record collection =
  challenge1b_input :: "json_file option"
  dir_PDFs :: "(string \<rightharpoonup> page_texts) option"
  dir_PDFS :: "(string \<rightharpoonup> page_texts) option"
  output_writable :: bool

datatype error =
    Input_file_not_found
  | PDFs_directory_not_found
  | JSONDecodeError
  | OSError

datatype log_record =
    Info_processing_collection
  | Warning_pdf_not_found string
  | Info_processing_pdf string
  | Info_output_saved
  | Error_processing_collection error

text \<open>Every section gets its document and its score.\<close>

definition score_sections ::
  "string \<Rightarrow> string \<Rightarrow> string \<Rightarrow> doc_section list \<Rightarrow> (doc_section \<times> real) list" where
  "score_sections filename persona job sections =
     map (\<lambda>s. let s' = s\<lparr>sec_document := Some filename\<rparr> in (s', score_section s' persona job))
       sections"

text \<open>
  \<open>scored_sections.sort(key=lambda x: x[1], reverse=True)\<close>: Python's sort is stable, and
  stays so with \<open>reverse=True\<close>: descending scores, equal scores in their former order.
\<close>

definition sort_by_score :: "(doc_section \<times> real) list \<Rightarrow> (doc_section \<times> real) list" where
  "sort_by_score scored_sections = sort_key (\<lambda>x. - snd x) scored_sections"

definition extracted_of :: "string \<Rightarrow> nat \<Rightarrow> doc_section \<Rightarrow> extracted_entry" where
  "extracted_of filename i s =
     \<lparr>es_document = filename, es_section_title = sec_title s, es_importance_rank = i + 1,
      es_page_number = sec_page_number s\<rparr>"

definition subsection_of :: "string \<Rightarrow> doc_section \<Rightarrow> subsection_entry" where
  "subsection_of filename s =
     \<lparr>sa_document = filename, sa_refined_text = extract_refined_text (sec_content s),
      sa_page_number = sec_page_number s\<rparr>"

text \<open>The loop over the top sections of one document; both lists grow by one entry.\<close>

fun emit_loop ::
  "string \<Rightarrow> extracted_entry list \<times> subsection_entry list \<Rightarrow> (nat \<times> doc_section \<times> real) list
   \<Rightarrow> extracted_entry list \<times> subsection_entry list" where
  "emit_loop filename (es, sa) [] = (es, sa)"
| "emit_loop filename (es, sa) ((i, s, score) # rest) =
     emit_loop filename (es @ [extracted_of filename i s], sa @ [subsection_of filename s]) rest"

text \<open>The loop over the documents; a document whose PDF does not exist is skipped.\<close>

fun document_loop ::
  "(string \<rightharpoonup> page_texts) \<Rightarrow> string \<Rightarrow> string
   \<Rightarrow> extracted_entry list \<times> subsection_entry list \<times> log_record list \<Rightarrow> string list
   \<Rightarrow> extracted_entry list \<times> subsection_entry list \<times> log_record list" where
  "document_loop pdfs_dir persona job st [] = st"
| "document_loop pdfs_dir persona job (es, sa, lg) (filename # rest) =
     (case pdfs_dir filename of
        None \<Rightarrow> document_loop pdfs_dir persona job (es, sa, lg @ [Warning_pdf_not_found filename]) rest
      | Some pgs \<Rightarrow>
          (let sections = identify_sections pgs;
               scored_sections = sort_by_score (score_sections filename persona job sections)
           in case emit_loop filename (es, sa) (enumerate_from0 (take 3 scored_sections)) of
                (es', sa') \<Rightarrow>
                  document_loop pdfs_dir persona job
                    (es', sa', lg @ [Info_processing_pdf filename]) rest))"

text \<open>\<open>PDFs\<close>, and \<open>PDFS\<close> when \<open>PDFs\<close> does not exist.\<close>

definition find_pdfs_dir :: "collection \<Rightarrow> (string \<rightharpoonup> page_texts) option" where
  "find_pdfs_dir c = (case dir_PDFs c of Some d \<Rightarrow> Some d | None \<Rightarrow> dir_PDFS c)"

text \<open>\<open>process_collection\<close> returns the records it logged and its result or its exception.\<close>

definition process_collection :: "collection \<Rightarrow> log_record list \<times> (error + run_output)" where
  "process_collection c =
     (case challenge1b_input c of
        None \<Rightarrow> ([Info_processing_collection], Inl Input_file_not_found)
      | Some Invalid_json \<Rightarrow> ([Info_processing_collection], Inl JSONDecodeError)
      | Some (Json input_config) \<Rightarrow>
          (case find_pdfs_dir c of
             None \<Rightarrow> ([Info_processing_collection], Inl PDFs_directory_not_found)
           | Some pdfs_dir \<Rightarrow>
               (case document_loop pdfs_dir (cfg_persona input_config) (cfg_job input_config)
                       ([], [], [Info_processing_collection]) (cfg_documents input_config) of
                  (es, sa, lg) \<Rightarrow>
                    (lg, Inr \<lparr>out_metadata =
                                \<lparr>md_input_documents = cfg_documents input_config,
                                 md_persona = cfg_persona input_config,
                                 md_job_to_be_done = cfg_job input_config\<rparr>,
                              extracted_sections = sort_key es_importance_rank es,
                              subsection_analysis = sa\<rparr>))))"

text \<open>
  \<open>main\<close>, for the argument vector and the collection directories that exist: the records
  logged, the output saved (if any) and the exit status.
\<close>

definition main :: "string list \<Rightarrow> (string \<rightharpoonup> collection) \<Rightarrow> log_record list \<times> run_output option \<times> nat" where
  "main argv fs =
     (if length argv < 2 then ([], None, 1)
      else
        (case fs (argv ! 1) of
           None \<Rightarrow> ([], None, 1)
         | Some c \<Rightarrow>
             (case process_collection c of
                (lg, Inl e) \<Rightarrow> (lg @ [Error_processing_collection e], None, 1)
              | (lg, Inr out) \<Rightarrow>
                  if output_writable c then (lg @ [Info_output_saved], Some out, 0)
                  else (lg @ [Error_processing_collection OSError], None, 1))))"

section \<open>Notions used to state the properties\<close>

text \<open>Two neighbours of a list of candidates are on one page and at one level.\<close>

fun adjacent_same :: "heading list \<Rightarrow> bool" where
  "adjacent_same [] = False"
| "adjacent_same [x] = False"
| "adjacent_same (x # y # rest) =
     ((h_page y = h_page x \<and> h_level y = h_level x) \<or> adjacent_same (y # rest))"

text \<open>The test that \<open>keyword_matches\<close> applies to a keyword.\<close>

definition keyword_hit :: "doc_section \<Rightarrow> string \<Rightarrow> bool" where
  "keyword_hit s keyword =
     (contains keyword (section_content_text s) \<or> contains keyword (lower (sec_title s)))"

text \<open>
  The count as claim C5 words it: over the union of the two keyword lists, every keyword
  once.
\<close>

definition keyword_matches_union :: "doc_section \<Rightarrow> string \<Rightarrow> string \<Rightarrow> nat" where
  "keyword_matches_union s persona job =
     length (filter (keyword_hit s) (remdups (all_keywords persona job)))"

text \<open>A text that is not empty and has no whitespace at its ends.\<close>

definition trimmed :: "string \<Rightarrow> bool" where
  "trimmed s = (s \<noteq> [] \<and> \<not> is_space (hd s) \<and> \<not> is_space (last s))"

text \<open>
  The text that \<open>_extract_refined_text\<close> measures: the lines joined by blanks, every
  run of whitespace collapsed to one blank.
\<close>

definition refined_source :: "string list \<Rightarrow> string" where
  "refined_source content_lines = collapse_ws False (join '' '' content_lines)"

text \<open>The text before the first dot, and the text after it.\<close>

definition first_sentence :: "string \<Rightarrow> string" where
  "first_sentence t = takeWhile (\<lambda>x. x \<noteq> CHR ''.'') t"

definition after_first_dot :: "string \<Rightarrow> string" where
  "after_first_dot t = tl (dropWhile (\<lambda>x. x \<noteq> CHR ''.'') t)"

text \<open>
  What claim C8 says of a collapsed text: kept when it has at most 500 characters; else
  its first two sentences, each followed by a dot (and a blank between them), when it has
  a dot; else its first 500 characters.
\<close>

definition refined_choice :: "string \<Rightarrow> string" where
  "refined_choice t =
     (if length t \<le> 500 then t
      else if CHR ''.'' \<in> set t
        then first_sentence t @ ''. '' @ first_sentence (after_first_dot t) @ ''.''
      else take 500 t)"

text \<open>
  The spans of the first page that can give the title: those with a text that is not
  blank and with a positive font size.
\<close>

definition title_candidates :: "span list \<Rightarrow> span list" where
  "title_candidates sps = filter (\<lambda>sp. strip (span_text sp) \<noteq> [] \<and> span_size sp > 0) sps"

text \<open>
  \<open>t\<close> is the text of the largest-font span among \<open>sps\<close>: the stripped text of the first
  candidate whose font size no candidate exceeds, and the empty text when there is no
  candidate.
\<close>

definition largest_font_text :: "span list \<Rightarrow> string \<Rightarrow> bool" where
  "largest_font_text sps t =
     (let cands = title_candidates sps in
      if cands = [] then t = []
      else (\<exists>i < length cands.
              t = strip (span_text (cands ! i))
              \<and> (\<forall>j < length cands. span_size (cands ! j) \<le> span_size (cands ! i))
              \<and> (\<forall>j < i. span_size (cands ! j) < span_size (cands ! i))))"

definition first_page_spans :: "pdf_doc \<Rightarrow> span list" where
  "first_page_spans doc = (case pages doc of [] \<Rightarrow> [] | first_page # _ \<Rightarrow> page_spans first_page)"

definition first_page_title :: "pdf_doc \<Rightarrow> string" where
  "first_page_title doc = snd (title_scan (0, []) (first_page_spans doc))"

text \<open>The two variables of the signal strategy that hold the title.\<close>

definition title_state :: "signal_state \<Rightarrow> real \<times> string" where
  "title_state st = (sg_max_fontsize st, sg_title_candidate st)"

text \<open>
  The lines of a page that the segmenter looks at: stripped, the blank ones left out, each
  with its index among all the lines of the page.
\<close>

definition stripped_lines :: "(nat \<times> string) list \<Rightarrow> (nat \<times> string) list" where
  "stripped_lines els = filter (\<lambda>(i, l). l \<noteq> []) (map (\<lambda>(i, raw). (i, strip raw)) els)"

definition page_lines :: "string \<Rightarrow> (nat \<times> string) list" where
  "page_lines page_text = stripped_lines (enumerate_from0 (split_on CHR 0x0A page_text))"

text \<open>A line that is not a header.\<close>

definition plain_line :: "nat \<times> string \<Rightarrow> bool" where
  "plain_line il = (\<not> is_section_header (snd il))"

text \<open>
  Every header line of a page with the lines that follow it up to the next header line of
  the page, or up to the end of the page.
\<close>

fun header_groups :: "(nat \<times> string) list \<Rightarrow> (nat \<times> string \<times> string list) list" where
  "header_groups [] = []"
| "header_groups ((i, l) # ls) =
     (if is_section_header l
      then (i, l, map snd (takeWhile plain_line ls)) # header_groups ls
      else header_groups ls)"

definition mk_section :: "int \<Rightarrow> nat \<times> string \<times> string list \<Rightarrow> doc_section" where
  "mk_section page_num g =
     (case g of (i, h, body) \<Rightarrow>
        \<lparr>sec_title = h, sec_page_number = page_num, sec_start_line = i,
         sec_content = body, sec_document = None\<rparr>)"

definition page_sections :: "int \<times> string \<Rightarrow> doc_section list" where
  "page_sections pg =
     (case pg of (page_num, page_text) \<Rightarrow>
        map (mk_section page_num) (header_groups (page_lines page_text)))"

text \<open>The scored sections of a document in the order of the ranking.\<close>

definition ranked_sections :: "string \<Rightarrow> string \<Rightarrow> string \<Rightarrow> page_texts \<Rightarrow> (doc_section \<times> real) list" where
  "ranked_sections filename persona job pgs =
     sort_by_score (score_sections filename persona job (identify_sections pgs))"

text \<open>
  What the run emits for one entry of \<open>documents\<close>: nothing when the PDF does not exist,
  else the first three ranked sections with their positions.
\<close>

definition top_sections ::
  "(string \<rightharpoonup> page_texts) \<Rightarrow> string \<Rightarrow> string \<Rightarrow> string \<Rightarrow> (nat \<times> doc_section \<times> real) list" where
  "top_sections pdfs_dir persona job filename =
     (case pdfs_dir filename of
        None \<Rightarrow> []
      | Some pgs \<Rightarrow> enumerate_from0 (take 3 (ranked_sections filename persona job pgs)))"

definition doc_entries ::
  "(string \<rightharpoonup> page_texts) \<Rightarrow> string \<Rightarrow> string \<Rightarrow> string \<Rightarrow> extracted_entry list" where
  "doc_entries pdfs_dir persona job filename =
     map (\<lambda>(i, s, score). extracted_of filename i s) (top_sections pdfs_dir persona job filename)"

definition doc_subsections ::
  "(string \<rightharpoonup> page_texts) \<Rightarrow> string \<Rightarrow> string \<Rightarrow> string \<Rightarrow> subsection_entry list" where
  "doc_subsections pdfs_dir persona job filename =
     map (\<lambda>(i, s, score). subsection_of filename s) (top_sections pdfs_dir persona job filename)"

text \<open>The record that the loop logs for a document.\<close>

definition doc_log :: "(string \<rightharpoonup> page_texts) \<Rightarrow> string \<Rightarrow> log_record" where
  "doc_log pdfs_dir filename =
     (if pdfs_dir filename = None then Warning_pdf_not_found filename
      else Info_processing_pdf filename)"

text \<open>The documents of the configuration whose PDF exists.\<close>

definition present_documents :: "(string \<rightharpoonup> page_texts) \<Rightarrow> string list \<Rightarrow> string list" where
  "present_documents pdfs_dir docs = filter (\<lambda>f. pdfs_dir f \<noteq> None) docs"

text \<open>The exit status and the saved output of a run of \<open>main\<close>.\<close>

definition exit_status :: "log_record list \<times> run_output option \<times> nat \<Rightarrow> nat" where
  "exit_status r = snd (snd r)"

definition saved_output :: "log_record list \<times> run_output option \<times> nat \<Rightarrow> run_output option" where
  "saved_output r = fst (snd r)"

text \<open>
  A collection with three documents, the second without its PDF, and only the directory
  \<open>PDFS\<close>; persona and job are not in the keyword tables.
\<close>

definition example_collection :: collection where
  "example_collection =
     \<lparr>challenge1b_input =
        Some (Json \<lparr>cfg_documents = [''a.pdf'', ''gone.pdf'', ''b.pdf''],
                    cfg_persona = ''Reader'', cfg_job = ''Read''\<rparr>),
      dir_PDFs = None,
      dir_PDFS = Some [''a.pdf'' \<mapsto> [(1, ''Intro\<newline>foo\<newline>Next\<newline>bar baz'')],
                       ''b.pdf'' \<mapsto> [(1, ''Other\<newline>qux'')]],
      output_writable = True\<rparr>"

text \<open>
  A collection for the ranking: the first document has four sections on two pages. By
  their floats, \<open>Edit export share\<close> (36.02) is ahead of \<open>Form\<close>
  (36.019999999999996), which comes first in the document; \<open>Alpha\<close> and \<open>Beta\<close> have
  one score.
\<close>

definition ranking_example :: collection where
  "ranking_example =
     \<lparr>challenge1b_input =
        Some (Json \<lparr>cfg_documents = [''guide.pdf'', ''notes.pdf''],
                    cfg_persona = ''hr professional'', cfg_job = ''''\<rparr>),
      dir_PDFs =
        Some [''guide.pdf'' \<mapsto>
                [(1, ''Form\<newline>signatures\<newline>Edit export share\<newline>xyz''),
                 (2, ''Alpha\<newline>one two six\<newline>Beta\<newline>one two six'')],
              ''notes.pdf'' \<mapsto> [(1, ''Other\<newline>qux'')]],
      dir_PDFS = None,
      output_writable = True\<rparr>"

section \<open>Properties of the outline extraction\<close>

lemmas char_class_defs = is_space_def is_digit_def is_upper_def is_lower_def

lemmas numbered_eval = numbered_def numbered_pattern_def RPlus_def RLit_def char_class_defs

subsection \<open>The numbered-prefix rule\<close>

text \<open>What the code does with a text that its pattern accepts.\<close>

lemma detect_heading_level_numbered:
  "numbered t \<Longrightarrow>
   detect_heading_level t sp prev_fontsize =
     Some (H (if count_dots t = 1 then 1 else if count_dots t = 2 then 2 else 3))"
  by (simp add: detect_heading_level_def Let_def)

text \<open>
  Claim C1 says that a numbered text gets its level from the number of numeric groups of
  its prefix alone, with \<open>2.1 Overview\<close> at H2 and \<open>3.2.1 Detail\<close> at H3. The code
  does not do that. Its pattern wants a dot after every group, so \<open>2.1 Overview\<close> and
  \<open>3.2.1 Detail\<close> are not numbered texts for it: they get no level at font size 10 and
  H1 at font size 16. And the level of a text that the pattern accepts comes from the
  number of dots in the whole text: \<open>1. Intro to v2.0\<close>, with one group, is put at H2.
\<close>

theorem detect_heading_level_numbered_examples:
  "detect_heading_level ''2.1 Overview''
     \<lparr>span_text = ''2.1 Overview'', span_size = 10, span_flags = None\<rparr> None = None
   \<and> detect_heading_level ''2.1 Overview''
     \<lparr>span_text = ''2.1 Overview'', span_size = 16, span_flags = None\<rparr> None = Some (H 1)
   \<and> detect_heading_level ''3.2.1 Detail''
     \<lparr>span_text = ''3.2.1 Detail'', span_size = 10, span_flags = None\<rparr> None = None
   \<and> detect_heading_level ''1. Intro to v2.0''
     \<lparr>span_text = ''1. Intro to v2.0'', span_size = 10, span_flags = None\<rparr> None = Some (H 2)"
  by (simp add: detect_heading_level_def numbered_eval count_dots_def CUSTOM_KEYWORDS_def
      lower_def lower_char_def get_flags_def)

subsection \<open>The noise filter\<close>

lemma set_dedup_loop: "set (dedup_loop seen xs) = set xs - seen"
  by (induction xs arbitrary: seen) auto

lemma set_remove_duplicates: "set (remove_duplicates xs) = set xs"
  by (simp add: remove_duplicates_def set_dedup_loop)




subsection \<open>Running the normalizer twice\<close>

lemma merge_loop_no_adjacent:
  "\<not> adjacent_same (l # xs) \<Longrightarrow> merge_loop cleaned (Some l) xs = cleaned @ l # xs"
  by (induction xs arbitrary: cleaned l) auto

lemma merge_fragments_no_adjacent: "\<not> adjacent_same xs \<Longrightarrow> merge_fragments xs = xs"
  by (cases xs) (simp_all add: merge_fragments_def merge_loop_no_adjacent)

lemma dedup_loop_distinct: "distinct (dedup_loop seen xs)"
  by (induction xs arbitrary: seen) (auto simp: set_dedup_loop)

lemma dedup_loop_id: "distinct xs \<Longrightarrow> set xs \<inter> seen = {} \<Longrightarrow> dedup_loop seen xs = xs"
  by (induction xs arbitrary: seen) auto

lemma remove_duplicates_idem: "remove_duplicates (remove_duplicates xs) = remove_duplicates xs"
  by (simp add: remove_duplicates_def dedup_loop_id dedup_loop_distinct)

lemma noise_filter_clean_outline: "noise_filter (clean_outline cs) = clean_outline cs"
  by (simp add: noise_filter_def clean_outline_def set_remove_duplicates)

lemmas clean_eval = clean_outline_def merge_fragments_def noise_filter_def valid_heading_def
  remove_duplicates_def HEADING_MIN_LENGTH_def numbered_eval

text \<open>
  Claim C7, as the code has it: the deduplication is idempotent, and the whole normalizer
  returns its own output unchanged whenever no two neighbours of that output are on one
  page and at one level.
\<close>

theorem clean_outline_idempotent_unless_adjacent:
  "remove_duplicates (remove_duplicates cs) = remove_duplicates cs
   \<and> (\<not> adjacent_same (clean_outline cs) \<longrightarrow> clean_outline (clean_outline cs) = clean_outline cs)"
proof (intro conjI impI)
  show "remove_duplicates (remove_duplicates cs) = remove_duplicates cs"
    by (rule remove_duplicates_idem)
next
  assume na: "\<not> adjacent_same (clean_outline cs)"
  have "clean_outline (clean_outline cs) = remove_duplicates (noise_filter (clean_outline cs))"
    using na by (simp add: clean_outline_def [of "clean_outline cs"] merge_fragments_no_adjacent)
  also have "\<dots> = remove_duplicates (clean_outline cs)"
    by (simp add: noise_filter_clean_outline)
  also have "\<dots> = clean_outline cs"
    by (simp add: clean_outline_def remove_duplicates_idem)
  finally show "clean_outline (clean_outline cs) = clean_outline cs" .
qed

text \<open>Two fragments of one heading and a heading at another level: the second run changes nothing.\<close>

theorem clean_outline_idempotent_unless_adjacent_witness:
  "\<not> adjacent_same (clean_outline [\<lparr>h_level = H 1, h_text = ''Intro'', h_page = 1\<rparr>,
                  \<lparr>h_level = H 1, h_text = ''duction'', h_page = 1\<rparr>,
                  \<lparr>h_level = H 2, h_text = ''Methods'', h_page = 1\<rparr>])
   \<and> clean_outline (clean_outline [\<lparr>h_level = H 1, h_text = ''Intro'', h_page = 1\<rparr>,
                  \<lparr>h_level = H 1, h_text = ''duction'', h_page = 1\<rparr>,
                  \<lparr>h_level = H 2, h_text = ''Methods'', h_page = 1\<rparr>])
     = [\<lparr>h_level = H 1, h_text = ''Intro duction'', h_page = 1\<rparr>,
        \<lparr>h_level = H 2, h_text = ''Methods'', h_page = 1\<rparr>]"
proof -
  have c: "clean_outline [\<lparr>h_level = H 1, h_text = ''Intro'', h_page = 1\<rparr>,
                  \<lparr>h_level = H 1, h_text = ''duction'', h_page = 1\<rparr>,
                  \<lparr>h_level = H 2, h_text = ''Methods'', h_page = 1\<rparr>]
     = [\<lparr>h_level = H 1, h_text = ''Intro duction'', h_page = 1\<rparr>,
        \<lparr>h_level = H 2, h_text = ''Methods'', h_page = 1\<rparr>]"
    by (simp add: clean_eval)
  have na: "\<not> adjacent_same (clean_outline [\<lparr>h_level = H 1, h_text = ''Intro'', h_page = 1\<rparr>,
                  \<lparr>h_level = H 1, h_text = ''duction'', h_page = 1\<rparr>,
                  \<lparr>h_level = H 2, h_text = ''Methods'', h_page = 1\<rparr>])"
    unfolding c by simp
  show ?thesis
    using na c
      clean_outline_idempotent_unless_adjacent
        [of "[\<lparr>h_level = H 1, h_text = ''Intro'', h_page = 1\<rparr>,
              \<lparr>h_level = H 1, h_text = ''duction'', h_page = 1\<rparr>,
              \<lparr>h_level = H 2, h_text = ''Methods'', h_page = 1\<rparr>]"]
    by simp
qed

text \<open>
  The normalizer is not idempotent in general: when the noise filter drops the short
  candidate between two H1 candidates of page 1, they become neighbours in the output,
  and a second run merges them.
\<close>

theorem clean_outline_not_idempotent:
  "clean_outline [\<lparr>h_level = H 1, h_text = ''Intro'', h_page = 1\<rparr>,
                  \<lparr>h_level = H 2, h_text = ''ab'', h_page = 1\<rparr>,
                  \<lparr>h_level = H 1, h_text = ''Methods'', h_page = 1\<rparr>]
     = [\<lparr>h_level = H 1, h_text = ''Intro'', h_page = 1\<rparr>,
        \<lparr>h_level = H 1, h_text = ''Methods'', h_page = 1\<rparr>]
   \<and> clean_outline (clean_outline [\<lparr>h_level = H 1, h_text = ''Intro'', h_page = 1\<rparr>,
                  \<lparr>h_level = H 2, h_text = ''ab'', h_page = 1\<rparr>,
                  \<lparr>h_level = H 1, h_text = ''Methods'', h_page = 1\<rparr>])
     = [\<lparr>h_level = H 1, h_text = ''Intro Methods'', h_page = 1\<rparr>]"
  by (simp add: clean_eval)

subsection \<open>The title\<close>

lemma title_scan_filter:
  "m \<ge> 0 \<Longrightarrow> title_scan (m, t) sps = title_scan (m, t) (title_candidates sps)"
  by (induction sps arbitrary: m t) (auto simp: title_candidates_def Let_def)

lemma title_scan_spec:
  assumes "\<forall>sp \<in> set cs. strip (span_text sp) \<noteq> []"
  shows "title_scan (m, t) cs = (m', t') \<Longrightarrow>
    (\<forall>sp \<in> set cs. span_size sp \<le> m') \<and> m \<le> m' \<and>
    ((m' = m \<and> t' = t) \<or>
     (\<exists>i < length cs. t' = strip (span_text (cs ! i)) \<and> m' = span_size (cs ! i) \<and> m < m'
        \<and> (\<forall>j < i. span_size (cs ! j) < m')))"
  using assms
proof (induction cs arbitrary: m t)
  case Nil
  then show ?case by simp
next
  case (Cons sp cs)
  show ?case
  proof (cases "span_size sp > m")
    case True
    with Cons.prems have ts: "title_scan (span_size sp, strip (span_text sp)) cs = (m', t')"
      by (simp add: Let_def)
    from Cons.IH [OF ts] Cons.prems(2)
    have ih: "(\<forall>sp \<in> set cs. span_size sp \<le> m')" "span_size sp \<le> m'"
      "(m' = span_size sp \<and> t' = strip (span_text sp)) \<or>
       (\<exists>i < length cs. t' = strip (span_text (cs ! i)) \<and> m' = span_size (cs ! i) \<and> span_size sp < m'
        \<and> (\<forall>j < i. span_size (cs ! j) < m'))"
      by auto
    from ih(3) have "\<exists>i < length (sp # cs). t' = strip (span_text ((sp # cs) ! i)) \<and> m' = span_size ((sp # cs) ! i) \<and> m < m'
        \<and> (\<forall>j < i. span_size ((sp # cs) ! j) < m')"
    proof
      assume "m' = span_size sp \<and> t' = strip (span_text sp)"
      then show ?thesis using True by (intro exI [of _ 0]) simp
    next
      assume "\<exists>i < length cs. t' = strip (span_text (cs ! i)) \<and> m' = span_size (cs ! i) \<and> span_size sp < m'
        \<and> (\<forall>j < i. span_size (cs ! j) < m')"
      then obtain i where i: "i < length cs" "t' = strip (span_text (cs ! i))" "m' = span_size (cs ! i)"
        "span_size sp < m'" "\<forall>j < i. span_size (cs ! j) < m'" by blast
      show ?thesis
        using i True by (intro exI [of _ "Suc i"]) (auto simp: less_Suc_eq_0_disj)
    qed
    with ih True show ?thesis by auto
  next
    case False
    with Cons.prems have ts: "title_scan (m, t) cs = (m', t')"
      by (simp add: Let_def)
    from Cons.IH [OF ts] Cons.prems(2)
    have ih: "(\<forall>sp \<in> set cs. span_size sp \<le> m')" "m \<le> m'"
      "(m' = m \<and> t' = t) \<or>
       (\<exists>i < length cs. t' = strip (span_text (cs ! i)) \<and> m' = span_size (cs ! i) \<and> m < m'
        \<and> (\<forall>j < i. span_size (cs ! j) < m'))"
      by auto
    from ih(3) have "(m' = m \<and> t' = t) \<or> (\<exists>i < length (sp # cs). t' = strip (span_text ((sp # cs) ! i)) \<and> m' = span_size ((sp # cs) ! i) \<and> m < m'
        \<and> (\<forall>j < i. span_size ((sp # cs) ! j) < m'))"
    proof
      assume "m' = m \<and> t' = t" then show ?thesis by simp
    next
      assume "\<exists>i < length cs. t' = strip (span_text (cs ! i)) \<and> m' = span_size (cs ! i) \<and> m < m'
        \<and> (\<forall>j < i. span_size (cs ! j) < m')"
      then obtain i where i: "i < length cs" "t' = strip (span_text (cs ! i))" "m' = span_size (cs ! i)"
        "m < m'" "\<forall>j < i. span_size (cs ! j) < m'" by blast
      have "\<exists>i < length (sp # cs). t' = strip (span_text ((sp # cs) ! i)) \<and> m' = span_size ((sp # cs) ! i) \<and> m < m'
        \<and> (\<forall>j < i. span_size ((sp # cs) ! j) < m')"
        using i False by (intro exI [of _ "Suc i"]) (auto simp: less_Suc_eq_0_disj)
      then show ?thesis ..
    qed
    with ih False show ?thesis by auto
  qed
qed

lemma largest_font_text_scan: "largest_font_text sps (snd (title_scan (0, []) sps))"
proof -
  let ?cs = "title_candidates sps"
  obtain m' t' where r: "title_scan (0, []) ?cs = (m', t')" by (cases "title_scan (0, []) ?cs")
  have ne: "\<forall>sp \<in> set ?cs. strip (span_text sp) \<noteq> []" by (simp add: title_candidates_def)
  have pos: "\<forall>sp \<in> set ?cs. span_size sp > 0" by (simp add: title_candidates_def)
  note sp = title_scan_spec [OF ne r]
  have eq: "snd (title_scan (0, []) sps) = t'"
    using title_scan_filter [of 0 "[]" sps] r by simp
  show ?thesis
  proof (cases "?cs = []")
    case True
    then show ?thesis using r eq by (simp add: largest_font_text_def)
  next
    case False
    then obtain c where c: "c \<in> set ?cs" by (cases ?cs) auto
    with sp pos have "m' > 0" by force
    with sp obtain i where i: "i < length ?cs" "t' = strip (span_text (?cs ! i))" "m' = span_size (?cs ! i)"
      "\<forall>j < i. span_size (?cs ! j) < m'" by auto
    moreover have "\<forall>j < length ?cs. span_size (?cs ! j) \<le> m'" using sp by simp
    ultimately show ?thesis unfolding eq largest_font_text_def Let_def using False by auto
  qed
qed

lemma title_scan_Nil: "title_scan mt [] = mt"
  by (cases mt) simp

lemma title_scan_append: "title_scan mt (xs @ ys) = title_scan (title_scan mt xs) ys"
proof (induction xs arbitrary: mt)
  case Nil
  then show ?case by (simp add: title_scan_Nil)
next
  case (Cons x xs)
  then show ?case by (cases mt) (simp add: Let_def)
qed

lemma signal_span_title:
  "title_state (signal_span page_num st sp) =
     (if page_num = 1 then title_scan (title_state st) [sp] else title_state st)"
  by (auto simp: signal_span_def title_state_def Let_def split: option.splits)

lemma foldl_signal_span_title:
  "title_state (foldl (signal_span page_num) st sps) =
     (if page_num = 1 then title_scan (title_state st) sps else title_state st)"
proof (induction sps arbitrary: st)
  case Nil
  then show ?case by (simp add: title_scan_Nil)
next
  case (Cons sp sps)
  show ?case
    using Cons [of "signal_span page_num st sp"] title_scan_append [of "title_state st" "[sp]" sps]
    by (simp add: signal_span_title)
qed

lemma signal_pages_later:
  "page_num \<noteq> 1 \<Longrightarrow> 1 \<le> page_num \<Longrightarrow>
   sg_title_candidate (signal_pages page_num st pgs) = sg_title_candidate st"
proof (induction pgs arbitrary: page_num st)
  case Nil
  then show ?case by simp
next
  case (Cons p pgs)
  have "sg_title_candidate (foldl (signal_span page_num) st (page_spans p)) = sg_title_candidate st"
    using foldl_signal_span_title [of page_num st "page_spans p"] Cons.prems
    by (simp add: title_state_def)
  then show ?case using Cons by simp
qed

lemma signals_title: "fst (extract_outline_by_signals doc) = first_page_title doc"
proof (cases "pages doc")
  case Nil
  then show ?thesis
    by (simp add: extract_outline_by_signals_def first_page_title_def first_page_spans_def)
next
  case (Cons p pgs)
  let ?st0 = "\<lparr>sg_outline = [], sg_max_fontsize = 0, sg_title_candidate = [], sg_prev_fontsize = None\<rparr>"
  have "sg_title_candidate (signal_pages 2 (foldl (signal_span 1) ?st0 (page_spans p)) pgs)
        = sg_title_candidate (foldl (signal_span 1) ?st0 (page_spans p))"
    by (rule signal_pages_later) simp_all
  also have "\<dots> = snd (title_scan (0, []) (page_spans p))"
    using foldl_signal_span_title [of 1 ?st0 "page_spans p"]
    by (simp add: title_state_def prod_eq_iff)
  finally show ?thesis
    using Cons by (simp add: extract_outline_by_signals_def first_page_title_def first_page_spans_def Let_def)
qed

text \<open>
  Claim C3, as the code has it: when the table of contents has entries, the title is the
  metadata title if that is not empty, and else the text of the largest-font span of
  page 1; when the table of contents is empty, so that the outline comes from the signal
  strategy, the title is the text of the largest-font span of page 1 whatever the metadata
  title is.
\<close>

theorem title_by_strategy:
  "fst (process_pdf doc) =
     (if toc doc \<noteq> [] \<and> metadata_title doc \<noteq> [] then metadata_title doc
      else first_page_title doc)
   \<and> largest_font_text (first_page_spans doc) (first_page_title doc)"
proof
  show "largest_font_text (first_page_spans doc) (first_page_title doc)"
    unfolding first_page_title_def by (rule largest_font_text_scan)
  show "fst (process_pdf doc) =
     (if toc doc \<noteq> [] \<and> metadata_title doc \<noteq> [] then metadata_title doc
      else first_page_title doc)"
  proof (cases "toc doc = []")
    case True
    then show ?thesis
      using signals_title [of doc]
      by (cases "extract_outline_by_signals doc")
        (simp add: process_pdf_def extract_pdf_outline_def Let_def)
  next
    case False
    then show ?thesis
      by (auto simp: process_pdf_def extract_pdf_outline_def Let_def first_page_title_def
          first_page_spans_def split: prod.splits list.splits)
  qed
qed

text \<open>
  A PDF without a table of contents, with the metadata title \<open>Meta\<close> and the one span
  \<open>Big\<close> on page 1: the title is \<open>Big\<close>.
\<close>

theorem title_ignores_metadata_on_fallback:
  "fst (process_pdf \<lparr>metadata_title = ''Meta'', toc = [],
      pages = [[Some [[\<lparr>span_text = ''Big'', span_size = 20, span_flags = None\<rparr>]]]]\<rparr>) = ''Big''"
  by (simp add: process_pdf_def extract_pdf_outline_def extract_outline_by_signals_def signal_span_def
      page_spans_def strip_def is_space_def Let_def detect_heading_level_def numbered_eval
      CUSTOM_KEYWORDS_def lower_def lower_char_def get_flags_def split: prod.splits)

text \<open>The same PDF with a table of contents: the title is \<open>Meta\<close>.\<close>

theorem title_by_strategy_witness:
  "fst (process_pdf \<lparr>metadata_title = ''Meta'', toc = [(1, ''Intro'', 1)],
      pages = [[Some [[\<lparr>span_text = ''Big'', span_size = 20, span_flags = None\<rparr>]]]]\<rparr>) = ''Meta''
   \<and> largest_font_text [\<lparr>span_text = ''Big'', span_size = 20, span_flags = None\<rparr>] ''Big''"
  using title_by_strategy [of "\<lparr>metadata_title = ''Meta'', toc = [(1, ''Intro'', 1)],
      pages = [[Some [[\<lparr>span_text = ''Big'', span_size = 20, span_flags = None\<rparr>]]]]\<rparr>"]
  by (simp add: first_page_title_def first_page_spans_def page_spans_def strip_def is_space_def)

section \<open>Properties of the collection ranking\<close>

subsection \<open>The sections of a document\<close>

lemma line_loop_groups:
  "line_loop pn secs cur cont els = (secs', cur', cont') \<Longrightarrow>
   close_section secs' cur' cont' =
     close_section secs cur
       (cont @ (if cur = None then [] else map snd (takeWhile plain_line (stripped_lines els))))
     @ map (mk_section pn) (header_groups (stripped_lines els))"
proof (induction els arbitrary: secs cur cont)
  case Nil
  then show ?case by (auto simp: stripped_lines_def close_section_def split: option.splits)
next
  case (Cons el els)
  obtain i raw where el: "el = (i, raw)" by (cases el)
  show ?case
  proof (cases "strip raw = []")
    case True
    then have sl: "stripped_lines (el # els) = stripped_lines els"
      by (simp add: stripped_lines_def el)
    from Cons.prems True have "line_loop pn secs cur cont els = (secs', cur', cont')"
      by (simp add: el)
    from Cons.IH [OF this] show ?thesis by (simp add: sl)
  next
    case False
    then have sl: "stripped_lines (el # els) = (i, strip raw) # stripped_lines els"
      by (simp add: stripped_lines_def el)
    show ?thesis
    proof (cases "is_section_header (strip raw)")
      case True
      from Cons.prems False True
      have "line_loop pn (close_section secs cur cont) (Some (new_section (strip raw) pn i)) [] els
              = (secs', cur', cont')"
        by (simp add: el Let_def)
      from Cons.IH [OF this] True show ?thesis
        by (simp add: sl plain_line_def close_section_def new_section_def mk_section_def
            split: option.splits)
    next
      case nh: False
      show ?thesis
      proof (cases cur)
        case None
        from Cons.prems False nh None have "line_loop pn secs cur cont els = (secs', cur', cont')"
          by (simp add: el Let_def)
        from Cons.IH [OF this] nh None show ?thesis
          by (simp add: sl)
      next
        case (Some c)
        from Cons.prems False nh Some
        have "line_loop pn secs cur (cont @ [strip raw]) els = (secs', cur', cont')"
          by (simp add: el Let_def)
        from Cons.IH [OF this] nh Some show ?thesis
          by (simp add: sl plain_line_def)
      qed
    qed
  qed
qed

lemma page_loop_sections: "page_loop secs pgs = secs @ concat (map page_sections pgs)"
proof (induction pgs arbitrary: secs)
  case Nil
  then show ?case by simp
next
  case (Cons pg pgs)
  obtain pn ptext where pg: "pg = (pn, ptext)" by (cases pg)
  obtain secs' cur' cont' where
    ll: "line_loop pn secs None [] (enumerate_from0 (split_on CHR 0x0A ptext)) = (secs', cur', cont')"
    by (cases "line_loop pn secs None [] (enumerate_from0 (split_on CHR 0x0A ptext))") auto
  have "close_section secs' cur' cont' = secs @ page_sections pg"
    using line_loop_groups [OF ll]
    by (simp add: close_section_def page_sections_def pg page_lines_def)
  then show ?case using Cons.IH ll by (simp add: pg)
qed

lemma identify_sections_pages: "identify_sections pgs = concat (map page_sections pgs)"
  by (simp add: identify_sections_def page_loop_sections)

lemma header_groups_append_subset: "set (header_groups ls) \<subseteq> set (header_groups (pre @ ls))"
  by (induction pre) auto

lemma header_groups_member:
  assumes "is_section_header h" and "\<forall>b \<in> set body. plain_line b"
    and "rest = [] \<or> is_section_header (snd (hd rest))"
  shows "(i, h, map snd body) \<in> set (header_groups (pre @ (i, h) # body @ rest))"
proof -
  have "takeWhile plain_line (body @ rest) = body"
  proof (cases rest)
    case Nil
    then show ?thesis using assms(2) by simp
  next
    case (Cons r rs)
    then have "\<not> plain_line r" using assms(3) by (simp add: plain_line_def)
    then show ?thesis using assms(2) Cons by (simp add: takeWhile_append2 takeWhile_tail)
  qed
  then have "(i, h, map snd body) \<in> set (header_groups ((i, h) # body @ rest))"
    using assms(1) by simp
  then show ?thesis using header_groups_append_subset by blast
qed

text \<open>
  Claim C2, as the code has it: the sections of a document are the sections of its pages,
  page after page, and a section's content is every non-header line that follows its
  header line on the same page, up to the next header line of that page or the end of
  that page.
\<close>

theorem identify_sections_per_page:
  "identify_sections pgs = concat (map page_sections pgs)
   \<and> (page_lines page_text = pre @ (i, h) # body @ rest
       \<and> is_section_header h
       \<and> (\<forall>b \<in> set body. \<not> is_section_header (snd b))
       \<and> (rest = [] \<or> is_section_header (snd (hd rest)))
      \<longrightarrow> \<lparr>sec_title = h, sec_page_number = page_num, sec_start_line = i,
            sec_content = map snd body, sec_document = None\<rparr>
          \<in> set (identify_sections (before @ (page_num, page_text) # after)))"
proof (intro conjI impI)
  show "identify_sections pgs = concat (map page_sections pgs)"
    by (rule identify_sections_pages)
next
  assume a: "page_lines page_text = pre @ (i, h) # body @ rest
       \<and> is_section_header h
       \<and> (\<forall>b \<in> set body. \<not> is_section_header (snd b))
       \<and> (rest = [] \<or> is_section_header (snd (hd rest)))"
  then have "(i, h, map snd body) \<in> set (header_groups (page_lines page_text))"
    using header_groups_member [of h body rest i pre] by (simp add: plain_line_def)
  then have "mk_section page_num (i, h, map snd body) \<in> set (page_sections (page_num, page_text))"
    by (simp add: page_sections_def)
  then show "\<lparr>sec_title = h, sec_page_number = page_num, sec_start_line = i,
            sec_content = map snd body, sec_document = None\<rparr>
          \<in> set (identify_sections (before @ (page_num, page_text) # after))"
    by (simp add: identify_sections_pages mk_section_def)
qed

lemmas header_eval = is_section_header_def section_patterns_def cap_word_def lower_words_def
  RPlus_def RLit_def char_class_defs upper_or_space_def not_char_def header_indicators_def
  lower_def lower_char_def

lemmas sections_eval = identify_sections_def enumerate_from0_def header_eval strip_def
  close_section_def new_section_def

text \<open>
  The section \<open>Intro\<close> of page 1 is followed on page 2 by the line \<open>bar\<close>, which is not
  a header, and only then by the header \<open>Next\<close>; its content is \<open>foo\<close> alone.
\<close>

theorem identify_sections_cut_at_page_end:
  "identify_sections [(1, ''Intro\<newline>foo''), (2, ''bar\<newline>Next\<newline>baz'')]
     = [\<lparr>sec_title = ''Intro'', sec_page_number = 1, sec_start_line = 0,
         sec_content = [''foo''], sec_document = None\<rparr>,
        \<lparr>sec_title = ''Next'', sec_page_number = 2, sec_start_line = 1,
         sec_content = [''baz''], sec_document = None\<rparr>]
   \<and> \<not> is_section_header ''bar''"
  by (simp add: sections_eval)

text \<open>The first page of the same document.\<close>

theorem identify_sections_per_page_witness:
  "\<lparr>sec_title = ''Intro'', sec_page_number = 1, sec_start_line = 0,
         sec_content = [''foo''], sec_document = None\<rparr>
     \<in> set (identify_sections [(1, ''Intro\<newline>foo''), (2, ''bar\<newline>Next\<newline>baz'')])"
proof -
  have pl: "page_lines ''Intro\<newline>foo'' = [] @ (0, ''Intro'') # [(1, ''foo'')] @ []"
    by (simp add: page_lines_def stripped_lines_def enumerate_from0_def strip_def is_space_def)
  have h: "is_section_header ''Intro''" by (simp add: header_eval)
  have b: "\<forall>b \<in> set [(1::nat, ''foo'')]. \<not> is_section_header (snd b)" by (simp add: header_eval)
  show ?thesis
    using identify_sections_per_page [of "[]" "''Intro\<newline>foo''" "[]" 0 "''Intro''" "[(1, ''foo'')]" "[]" 1 "[]"
                     "[(2, ''bar\<newline>Next\<newline>baz'')]"] pl h b
    by simp
qed

subsection \<open>The keyword count\<close>

lemma distinct_persona_keywords: "distinct (get_list persona_keywords k)"
  by (simp add: get_list_def persona_keywords_def)

lemma distinct_job_keywords: "distinct (get_list job_keywords k)"
  by (simp add: get_list_def job_keywords_def)

lemma count_concat_remdups:
  "distinct xs \<Longrightarrow> distinct ys \<Longrightarrow>
   length (filter P (xs @ ys)) =
     length (filter P (remdups (xs @ ys))) + length (filter P (filter (\<lambda>k. k \<in> set ys) xs))"
  by (induction xs) (auto simp: distinct_remdups_id)

text \<open>
  Claim C5, as the code has it: \<open>keyword_matches\<close> counts the matching keywords of the
  persona's list and the matching keywords of the job's list, so it is the count over the
  union plus the number of matching keywords that are in both lists: such a keyword
  contributes twice.
\<close>

theorem keyword_matches_counts_both_lists:
  "keyword_matches s persona job =
     length (filter (keyword_hit s) (get_list persona_keywords (lower persona)))
     + length (filter (keyword_hit s) (get_list job_keywords (lower job)))
   \<and> keyword_matches s persona job =
     keyword_matches_union s persona job
     + length (filter (keyword_hit s)
         (filter (\<lambda>k. k \<in> set (get_list job_keywords (lower job)))
            (get_list persona_keywords (lower persona))))"
proof -
  have eq: "keyword_matches s persona job =
              length (filter (keyword_hit s) (all_keywords persona job))"
    unfolding keyword_matches_def keyword_hit_def by simp
  show ?thesis
    unfolding eq keyword_matches_union_def all_keywords_def
    using count_concat_remdups [OF distinct_persona_keywords distinct_job_keywords]
    by simp
qed

text \<open>
  The keyword \<open>itinerary\<close> is in the list of the travel planner and in the list of the
  job \<open>plan a trip\<close>; a section that holds only this keyword has 2 keyword matches,
  where the count over the union is 1.
\<close>

theorem keyword_matches_counts_twice:
  "keyword_matches \<lparr>sec_title = ''Day one'', sec_page_number = 1, sec_start_line = 0,
       sec_content = [''the itinerary''], sec_document = None\<rparr>
     ''Travel Planner'' ''Plan a trip'' = 2
   \<and> keyword_matches_union \<lparr>sec_title = ''Day one'', sec_page_number = 1, sec_start_line = 0,
       sec_content = [''the itinerary''], sec_document = None\<rparr>
     ''Travel Planner'' ''Plan a trip'' = 1"
  by code_simp

subsection \<open>The refined text\<close>

lemma collapse_ws_no_space: "\<forall>c \<in> set s. \<not> is_space c \<Longrightarrow> collapse_ws b s = s"
  by (induction s arbitrary: b) auto

lemma split_on_nonempty: "split_on c s \<noteq> []"
  by (induction s) (auto split: list.splits)

lemma split_on_hd: "hd (split_on c s) = takeWhile (\<lambda>x. x \<noteq> c) s"
  using split_on_nonempty [of c] by (induction s) (auto split: list.splits)

lemma split_on_tl:
  "c \<in> set s \<Longrightarrow> tl (split_on c s) = split_on c (tl (dropWhile (\<lambda>x. x \<noteq> c) s))"
  using split_on_nonempty [of c] by (induction s) (auto split: list.splits)

lemma split_on_length: "Suc 0 < length (split_on c s) \<longleftrightarrow> c \<in> set s"
  using split_on_nonempty [of c] by (induction s) (auto split: list.splits)

lemma take2_split:
  assumes "CHR ''.'' \<in> set t"
  shows "take 2 (split_on CHR ''.'' t) = [first_sentence t, first_sentence (after_first_dot t)]"
proof -
  obtain a r where ar: "split_on CHR ''.'' t = a # r"
    using split_on_nonempty by (meson neq_Nil_conv)
  have a: "a = first_sentence t"
    using split_on_hd [of "CHR ''.''" t] ar by (simp add: first_sentence_def)
  have r: "r = split_on CHR ''.'' (after_first_dot t)"
    using split_on_tl [OF assms] ar by (simp add: after_first_dot_def)
  obtain b r' where br: "split_on CHR ''.'' (after_first_dot t) = b # r'"
    using split_on_nonempty by (meson neq_Nil_conv)
  have b: "b = first_sentence (after_first_dot t)"
    using split_on_hd [of "CHR ''.''" "after_first_dot t"] br by (simp add: first_sentence_def)
  show ?thesis using ar br a b r by simp
qed

lemma length_strip_le: "length (strip s) \<le> length s"
  unfolding strip_def by (metis length_dropWhile_le length_rev order_trans)

lemma extract_refined_text_eq:
  "extract_refined_text content_lines = strip (refined_choice (refined_source content_lines))"
proof (cases "content_lines = []")
  case True
  then show ?thesis
    by (simp add: extract_refined_text_def refined_source_def refined_choice_def strip_def)
next
  case False
  then show ?thesis
    by (auto simp: extract_refined_text_def refined_source_def refined_choice_def Let_def
        split_on_length take2_split)
qed

text \<open>A content of 501 letters, a dot and one more letter: the refined text has 505 characters.\<close>

lemma long_sentence_refined:
  "extract_refined_text [replicate 501 CHR ''a'' @ ''.b''] = replicate 501 CHR ''a'' @ ''. b.''"
proof -
  have ns: "\<forall>c \<in> set (replicate 501 CHR ''a'' @ ''.b''). \<not> is_space c"
    by (auto simp: is_space_def)
  have rs: "refined_source [replicate 501 CHR ''a'' @ ''.b''] = replicate 501 CHR ''a'' @ ''.b''"
    unfolding refined_source_def using collapse_ws_no_space [OF ns] by simp
  have fs: "first_sentence (replicate 501 CHR ''a'' @ ''.b'') = replicate 501 CHR ''a''"
    by (simp add: first_sentence_def takeWhile_append)
  have af: "after_first_dot (replicate 501 CHR ''a'' @ ''.b'') = ''b''"
    by (simp add: after_first_dot_def dropWhile_append)
  have st: "strip (replicate 501 CHR ''a'' @ ''. b.'') = replicate 501 CHR ''a'' @ ''. b.''"
    by (simp add: strip_def is_space_def dropWhile_append)
  have rc: "refined_choice (replicate 501 CHR ''a'' @ ''.b'') = replicate 501 CHR ''a'' @ ''. b.''"
    by (simp add: refined_choice_def fs af) (simp add: first_sentence_def)
  show ?thesis
    by (simp only: extract_refined_text_eq rs rc st)
qed

lemma strip_trimmed: "trimmed s \<Longrightarrow> strip s = s"
proof -
  assume t: "trimmed s"
  then obtain c cs where s: "s = c # cs" and c: "\<not> is_space c"
    by (cases s) (auto simp: trimmed_def)
  have d1: "dropWhile is_space s = s" using s c by simp
  from t have "rev s \<noteq> [] \<and> \<not> is_space (hd (rev s))"
    by (simp add: trimmed_def hd_rev)
  then have d2: "dropWhile is_space (rev s) = rev s"
    by (cases "rev s") auto
  show ?thesis by (simp add: strip_def d1 d2)
qed

lemma strip_result: "strip s = [] \<or> trimmed (strip s)"
proof (cases "strip s = []")
  case True
  then show ?thesis by simp
next
  case False
  let ?t = "dropWhile is_space s"
  let ?u = "dropWhile is_space (rev ?t)"
  have u: "?u \<noteq> []" using False by (simp add: strip_def)
  then have hu: "\<not> is_space (hd ?u)" by (metis hd_dropWhile)
  have "?t \<noteq> []"
  proof
    assume e: "?t = []"
    have "?u = dropWhile is_space (rev [])" by (simp only: e)
    then have "?u = []" by (simp only: rev.simps dropWhile.simps)
    with u show False ..
  qed
  then have ht: "\<not> is_space (hd ?t)" by (metis hd_dropWhile)
  have lu: "last (rev ?u) = hd ?u" using u by (simp add: last_rev)
  obtain pre where pre: "rev ?t = pre @ ?u"
    by (metis takeWhile_dropWhile_id)
  then have "?t = rev ?u @ rev pre" by (metis rev_append rev_rev_ident)
  then have "hd ?t = hd (rev ?u)" using u by (metis hd_append2 rev_is_Nil_conv)
  then have "\<not> is_space (hd (rev ?u))" using ht by simp
  then have "trimmed (strip s)"
    using u hu lu by (simp add: strip_def trimmed_def)
  then show ?thesis ..
qed

lemma collapse_ws_hd:
  "s \<noteq> [] \<Longrightarrow> \<not> is_space (hd s) \<Longrightarrow> collapse_ws b s \<noteq> [] \<and> hd (collapse_ws b s) = hd s"
  by (cases s) auto

lemma collapse_ws_last:
  "s \<noteq> [] \<Longrightarrow> \<not> is_space (last s) \<Longrightarrow> collapse_ws b s \<noteq> [] \<and> last (collapse_ws b s) = last s"
proof (induction s arbitrary: b)
  case Nil
  then show ?case by simp
next
  case (Cons c cs)
  show ?case
  proof (cases "cs = []")
    case True
    then show ?thesis using Cons.prems by simp
  next
    case False
    then have "collapse_ws True cs \<noteq> [] \<and> last (collapse_ws True cs) = last cs"
      "collapse_ws False cs \<noteq> [] \<and> last (collapse_ws False cs) = last cs"
      using Cons by simp_all
    then show ?thesis using False by simp
  qed
qed

lemma join_trimmed:
  "ls \<noteq> [] \<Longrightarrow> \<forall>l \<in> set ls. trimmed l \<Longrightarrow> trimmed (join sep ls)"
proof (induction sep ls rule: join.induct)
  case (1 sep)
  then show ?case by simp
next
  case (2 sep p)
  then show ?case by simp
next
  case (3 sep p q ps)
  then have "trimmed (join sep (q # ps))" and p: "trimmed p" by simp_all
  then show ?case by (auto simp: trimmed_def)
qed

lemma refined_source_trimmed:
  assumes "ls \<noteq> []" and "\<forall>l \<in> set ls. trimmed l"
  shows "trimmed (refined_source ls)"
proof -
  have j: "trimmed (join '' '' ls)" using assms by (rule join_trimmed)
  then show ?thesis
    unfolding refined_source_def trimmed_def
    using collapse_ws_hd [of "join '' '' ls" False] collapse_ws_last [of "join '' '' ls" False]
    by auto
qed

lemma stripped_lines_trimmed:
  "\<forall>il \<in> set (stripped_lines els). trimmed (snd il)"
proof -
  have "\<And>raw. strip raw \<noteq> [] \<Longrightarrow> trimmed (strip raw)" using strip_result by blast
  then show ?thesis by (auto simp: stripped_lines_def)
qed

lemma header_groups_content_subset:
  "(i, h, body) \<in> set (header_groups ls) \<Longrightarrow> set body \<subseteq> snd ` set ls"
proof (induction ls)
  case Nil
  then show ?case by simp
next
  case (Cons il ls)
  obtain j l where il: "il = (j, l)" by (cases il)
  show ?case
  proof (cases "(i, h, body) \<in> set (header_groups ls)")
    case True
    then show ?thesis using Cons.IH by auto
  next
    case False
    with Cons.prems il have "body = map snd (takeWhile plain_line ls)"
      by (auto split: if_splits)
    then show ?thesis using set_takeWhileD by fastforce
  qed
qed

lemma identify_sections_content_trimmed:
  assumes "s \<in> set (identify_sections pgs)" and "l \<in> set (sec_content s)"
  shows "trimmed l"
proof -
  from assms(1) obtain pn ptext i h body where
    g: "(i, h, body) \<in> set (header_groups (page_lines ptext))" and s: "s = mk_section pn (i, h, body)"
    by (auto simp: identify_sections_pages page_sections_def)
  from s assms(2) have "l \<in> set body" by (simp add: mk_section_def)
  with header_groups_content_subset [OF g] have "l \<in> snd ` set (page_lines ptext)" by blast
  then show ?thesis using stripped_lines_trimmed by (auto simp: page_lines_def)
qed

lemma section_refined_short:
  assumes "s \<in> set (identify_sections pgs)" and "length (refined_source (sec_content s)) \<le> 500"
  shows "extract_refined_text (sec_content s) = refined_source (sec_content s)"
proof (cases "sec_content s = []")
  case True
  then show ?thesis by (simp add: extract_refined_text_def refined_source_def)
next
  case False
  have "\<forall>l \<in> set (sec_content s). trimmed l"
    using identify_sections_content_trimmed [OF assms(1)] by blast
  then have "trimmed (refined_source (sec_content s))"
    using False by (simp add: refined_source_trimmed)
  then show ?thesis
    using assms(2) by (simp add: extract_refined_text_eq refined_choice_def strip_trimmed)
qed

text \<open>
  Claim C8: the refined text is the joined and collapsed content when that has at most
  500 characters, else its first two sentences when it has a dot, else its first 500
  characters, in each case without whitespace at its ends; for the content of a section
  of the segmenter, whose lines are stripped and not blank, the joined and collapsed
  content has no whitespace at its ends. So the refined text has at most 500 characters
  unless it is the two sentences, and then it can have more.
\<close>

theorem extract_refined_text_length:
  "extract_refined_text content_lines = strip (refined_choice (refined_source content_lines))
   \<and> (s \<in> set (identify_sections pgs) \<and> length (refined_source (sec_content s)) \<le> 500
        \<longrightarrow> extract_refined_text (sec_content s) = refined_source (sec_content s))
   \<and> (length (extract_refined_text content_lines) \<le> 500
      \<or> (length (refined_source content_lines) > 500
          \<and> CHR ''.'' \<in> set (refined_source content_lines)))
   \<and> length (extract_refined_text [replicate 501 CHR ''a'' @ ''.b'']) = 505"
proof (intro conjI impI)
  show "extract_refined_text content_lines = strip (refined_choice (refined_source content_lines))"
    by (rule extract_refined_text_eq)
  show "extract_refined_text (sec_content s) = refined_source (sec_content s)"
    if "s \<in> set (identify_sections pgs) \<and> length (refined_source (sec_content s)) \<le> 500"
    using that section_refined_short by blast
  show "length (extract_refined_text content_lines) \<le> 500
      \<or> (length (refined_source content_lines) > 500
          \<and> CHR ''.'' \<in> set (refined_source content_lines))"
  proof (cases "length (refined_source content_lines) > 500
                \<and> CHR ''.'' \<in> set (refined_source content_lines)")
    case True
    then show ?thesis by simp
  next
    case False
    then have "length (refined_choice (refined_source content_lines)) \<le> 500"
      by (auto simp: refined_choice_def)
    then have "length (extract_refined_text content_lines) \<le> 500"
      unfolding extract_refined_text_eq
      using length_strip_le [of "refined_choice (refined_source content_lines)"] by linarith
    then show ?thesis by simp
  qed
  show "length (extract_refined_text [replicate 501 CHR ''a'' @ ''.b'']) = 505"
    by (simp only: long_sentence_refined) simp
qed

text \<open>A section with the two content lines \<open>foo\<close> and \<open>bar  baz\<close>.\<close>

theorem extract_refined_text_length_witness:
  "\<lparr>sec_title = ''Intro'', sec_page_number = 1, sec_start_line = 0,
     sec_content = [''foo'', ''bar  baz''], sec_document = None\<rparr>
     \<in> set (identify_sections [(1, ''Intro\<newline> foo\<newline>bar  baz '')])
   \<and> extract_refined_text [''foo'', ''bar  baz''] = ''foo bar baz''"
proof -
  let ?s = "\<lparr>sec_title = ''Intro'', sec_page_number = 1, sec_start_line = 0,
     sec_content = [''foo'', ''bar  baz''], sec_document = None\<rparr>"
  have m: "identify_sections [(1, ''Intro\<newline> foo\<newline>bar  baz '')] = [?s]"
    by (simp add: sections_eval)
  have r: "refined_source [''foo'', ''bar  baz''] = ''foo bar baz''"
    by (simp add: refined_source_def is_space_def)
  show ?thesis
    using extract_refined_text_length [of "[]" ?s "[(1, ''Intro\<newline> foo\<newline>bar  baz '')]"] m r
    by simp
qed

subsection \<open>The run over a collection\<close>

text \<open>Evaluating the rounding.\<close>

lemma norm_exp_numeral:
  "norm_exp (numeral k) x e =
     (if 2 \<le> x then norm_exp (pred_numeral k) (x / 2) (e + 1)
      else if x < 1 then norm_exp (pred_numeral k) (x * 2) (e - 1)
      else e)"
  by (subst numeral_eq_Suc) (rule norm_exp.simps(2))

lemmas float_eval = binary64_def norm_exp_numeral pow2_def round_half_even_def Let_def

text \<open>
  The float nearest to 0.02; and two sums that are both 36.02 without rounding:
  \<open>(16 + 0.02) + 20\<close> is the float 36.019999999999996, \<open>36 + 0.02\<close> is the float 36.02.
\<close>

lemma binary64_examples:
  "binary64 (1 / 50) = 5764607523034235 / 288230376151711744
   \<and> binary64 (binary64 (16 + binary64 (1 / 50)) + 20) = 2534682165279457 / 70368744177664
   \<and> binary64 (36 + binary64 (1 / 50)) = 5069364330558915 / 140737488355328
   \<and> binary64 (binary64 (16 + binary64 (1 / 50)) + 20) < binary64 (36 + binary64 (1 / 50))
   \<and> binary64 36 = 36"
  by (simp add: float_eval split del: if_split)

lemma emit_loop_maps:
  "emit_loop filename (es, sa) xs =
     (es @ map (\<lambda>(i, s, score). extracted_of filename i s) xs,
      sa @ map (\<lambda>(i, s, score). subsection_of filename s) xs)"
  by (induction xs arbitrary: es sa) auto

lemma document_loop_concat:
  "document_loop pdfs_dir persona job (es, sa, lg) docs =
     (es @ concat (map (doc_entries pdfs_dir persona job) docs),
      sa @ concat (map (doc_subsections pdfs_dir persona job) docs),
      lg @ map (doc_log pdfs_dir) docs)"
proof (induction docs arbitrary: es sa lg)
  case Nil
  then show ?case by simp
next
  case (Cons f docs)
  show ?case
  proof (cases "pdfs_dir f")
    case None
    then show ?thesis
      using Cons.IH by (simp add: doc_entries_def doc_subsections_def top_sections_def doc_log_def)
  next
    case (Some pgs)
    then show ?thesis
      using Cons.IH
      by (simp add: doc_entries_def doc_subsections_def top_sections_def doc_log_def
          ranked_sections_def emit_loop_maps Let_def)
  qed
qed

lemma process_collection_ok:
  assumes "challenge1b_input c = Some (Json cfg)" and "find_pdfs_dir c = Some d"
  shows "process_collection c =
    (Info_processing_collection # map (doc_log d) (cfg_documents cfg),
     Inr \<lparr>out_metadata = \<lparr>md_input_documents = cfg_documents cfg, md_persona = cfg_persona cfg,
                           md_job_to_be_done = cfg_job cfg\<rparr>,
          extracted_sections =
            sort_key es_importance_rank
              (concat (map (doc_entries d (cfg_persona cfg) (cfg_job cfg)) (cfg_documents cfg))),
          subsection_analysis =
            concat (map (doc_subsections d (cfg_persona cfg) (cfg_job cfg)) (cfg_documents cfg))\<rparr>)"
  using assms by (simp add: process_collection_def document_loop_concat)

lemma length_top_sections: "length (top_sections d p j f) \<le> 3"
  by (simp add: top_sections_def enumerate_from0_def split: option.splits)

lemma enumerate_from0_nth:
  "i < length xs \<Longrightarrow> enumerate_from0 xs ! i = (i, xs ! i)"
  by (simp add: enumerate_from0_def)

lemma doc_entries_nth:
  assumes "d f = Some pgs" and "i < length (doc_entries d p j f)"
  shows "doc_entries d p j f ! i = extracted_of f i (fst (ranked_sections f p j pgs ! i))"
proof -
  let ?r = "take 3 (ranked_sections f p j pgs)"
  have len: "i < length ?r" using assms by (simp add: doc_entries_def top_sections_def enumerate_from0_def)
  then have "enumerate_from0 ?r ! i = (i, ranked_sections f p j pgs ! i)"
    by (simp add: enumerate_from0_nth)
  then show ?thesis
    using assms len by (simp add: doc_entries_def top_sections_def enumerate_from0_def split: prod.splits)
qed

lemma doc_entries_document: "e \<in> set (doc_entries d p j f) \<Longrightarrow> es_document e = f"
  by (auto simp: doc_entries_def extracted_of_def)

lemma filter_doc_entries:
  "filter (\<lambda>e. es_document e = f) (doc_entries d p j g) = (if g = f then doc_entries d p j g else [])"
  using doc_entries_document [of _ d p j g] by (auto simp: filter_empty_conv filter_id_conv)

lemma count_entries_per_document:
  "length (filter (\<lambda>e. es_document e = f) (concat (map (doc_entries d p j) docs)))
     \<le> 3 * count_list docs f"
proof (induction docs)
  case Nil
  then show ?case by simp
next
  case (Cons g docs)
  have "length (doc_entries d p j g) \<le> 3"
    using length_top_sections [of d p j g] by (simp add: doc_entries_def)
  then show ?case using Cons by (auto simp: filter_doc_entries)
qed

lemma length_filter_sort_key:
  "length (filter P (sort_key k xs)) = length (filter P xs)"
  by (simp add: filter_sort)

lemma ranked_sections_sorted:
  "sorted (map (\<lambda>x. - snd x) (ranked_sections f p j pgs))
   \<and> (\<forall>v. filter (\<lambda>x. snd x = v) (ranked_sections f p j pgs)
          = filter (\<lambda>x. snd x = v) (score_sections f p j (identify_sections pgs)))"
proof
  show "sorted (map (\<lambda>x. - snd x) (ranked_sections f p j pgs))"
    by (simp add: ranked_sections_def sort_by_score_def)
  show "\<forall>v. filter (\<lambda>x. snd x = v) (ranked_sections f p j pgs)
          = filter (\<lambda>x. snd x = v) (score_sections f p j (identify_sections pgs))"
  proof
    fix v :: real
    have "filter (\<lambda>x. - snd x = - v) (sort_key (\<lambda>x. - snd x) (score_sections f p j (identify_sections pgs)))
          = filter (\<lambda>x. - snd x = - v) (score_sections f p j (identify_sections pgs))"
      by (rule sort_key_stable)
    then show "filter (\<lambda>x. snd x = v) (ranked_sections f p j pgs)
          = filter (\<lambda>x. snd x = v) (score_sections f p j (identify_sections pgs))"
      by (simp add: ranked_sections_def sort_by_score_def)
  qed
qed

lemma ranked_sections_scores:
  "x \<in> set (ranked_sections f p j pgs) \<Longrightarrow> snd x = score_section (fst x) p j"
  by (auto simp: ranked_sections_def sort_by_score_def score_sections_def Let_def)

text \<open>The run on the collection \<open>ranking_example\<close>, step by step.\<close>

lemma guide_sections:
  "identify_sections
     [(1, ''Form\<newline>signatures\<newline>Edit export share\<newline>xyz''),
      (2, ''Alpha\<newline>one two six\<newline>Beta\<newline>one two six'')]
   = [\<lparr>sec_title = ''Form'', sec_page_number = 1, sec_start_line = 0,
        sec_content = [''signatures''], sec_document = None\<rparr>,
      \<lparr>sec_title = ''Edit export share'', sec_page_number = 1, sec_start_line = 2,
        sec_content = [''xyz''], sec_document = None\<rparr>,
      \<lparr>sec_title = ''Alpha'', sec_page_number = 2, sec_start_line = 0,
        sec_content = [''one two six''], sec_document = None\<rparr>,
      \<lparr>sec_title = ''Beta'', sec_page_number = 2, sec_start_line = 2,
        sec_content = [''one two six''], sec_document = None\<rparr>]"
  by (simp add: sections_eval Let_def)

lemma notes_sections:
  "identify_sections [(1, ''Other\<newline>qux'')]
   = [\<lparr>sec_title = ''Other'', sec_page_number = 1, sec_start_line = 0,
        sec_content = [''qux''], sec_document = None\<rparr>]"
  by (simp add: sections_eval Let_def)

text \<open>
  \<open>Form\<close>: three keyword matches (\<open>form\<close>, \<open>signature\<close>, \<open>signatures\<close>), one of them in
  the title, one word of content and the bonus of 20, that is \<open>(16 + 0.02) + 20\<close>.
\<close>

lemma score_form:
  "score_section \<lparr>sec_title = ''Form'', sec_page_number = 1, sec_start_line = 0,
        sec_content = [''signatures''], sec_document = Some ''guide.pdf''\<rparr>
     ''hr professional'' '''' = 2534682165279457 / 70368744177664"
  by code_simp

text \<open>
  \<open>Edit export share\<close>: three keyword matches, all in the title, and one word of content,
  that is \<open>36 + 0.02\<close>.
\<close>

lemma score_edit:
  "score_section \<lparr>sec_title = ''Edit export share'', sec_page_number = 1, sec_start_line = 2,
        sec_content = [''xyz''], sec_document = Some ''guide.pdf''\<rparr>
     ''hr professional'' '''' = 5069364330558915 / 140737488355328"
  by code_simp

text \<open>\<open>Alpha\<close> and \<open>Beta\<close>: no keyword match and three words of content, that is 0.06.\<close>

lemma score_alpha:
  "score_section \<lparr>sec_title = ''Alpha'', sec_page_number = 2, sec_start_line = 0,
        sec_content = [''one two six''], sec_document = Some ''guide.pdf''\<rparr>
     ''hr professional'' '''' = 1080863910568919 / 18014398509481984"
  by code_simp

lemma score_beta:
  "score_section \<lparr>sec_title = ''Beta'', sec_page_number = 2, sec_start_line = 2,
        sec_content = [''one two six''], sec_document = Some ''guide.pdf''\<rparr>
     ''hr professional'' '''' = 1080863910568919 / 18014398509481984"
  by code_simp

lemma score_other:
  "score_section \<lparr>sec_title = ''Other'', sec_page_number = 1, sec_start_line = 0,
        sec_content = [''qux''], sec_document = Some ''notes.pdf''\<rparr>
     ''hr professional'' '''' = 5764607523034235 / 288230376151711744"
  by code_simp

lemma ranking_run:
  "snd (process_collection ranking_example) =
     Inr \<lparr>out_metadata = \<lparr>md_input_documents = [''guide.pdf'', ''notes.pdf''],
                           md_persona = ''hr professional'', md_job_to_be_done = ''''\<rparr>,
          extracted_sections =
            [\<lparr>es_document = ''guide.pdf'', es_section_title = ''Edit export share'',
              es_importance_rank = 1, es_page_number = 1\<rparr>,
             \<lparr>es_document = ''notes.pdf'', es_section_title = ''Other'',
              es_importance_rank = 1, es_page_number = 1\<rparr>,
             \<lparr>es_document = ''guide.pdf'', es_section_title = ''Form'',
              es_importance_rank = 2, es_page_number = 1\<rparr>,
             \<lparr>es_document = ''guide.pdf'', es_section_title = ''Alpha'',
              es_importance_rank = 3, es_page_number = 2\<rparr>],
          subsection_analysis =
            [\<lparr>sa_document = ''guide.pdf'', sa_refined_text = ''xyz'', sa_page_number = 1\<rparr>,
             \<lparr>sa_document = ''guide.pdf'', sa_refined_text = ''signatures'', sa_page_number = 1\<rparr>,
             \<lparr>sa_document = ''guide.pdf'', sa_refined_text = ''one two six'', sa_page_number = 2\<rparr>,
             \<lparr>sa_document = ''notes.pdf'', sa_refined_text = ''qux'', sa_page_number = 1\<rparr>]\<rparr>"
  by (simp add: process_collection_def ranking_example_def find_pdfs_dir_def
      guide_sections notes_sections score_sections_def
      score_form score_edit score_alpha score_beta score_other
      sort_by_score_def enumerate_from0_def extracted_of_def subsection_of_def
      extract_refined_text_def strip_def is_space_def)

text \<open>
  Claim C6: a run that finds its configuration and its PDF directory returns an output
  whose \<open>extracted_sections\<close> are the entries of the documents, sorted by rank, entries
  of one rank in the order in which the documents were processed. Every entry of
  \<open>documents\<close> gives at most 3 entries (none when its PDF does not exist), so a file name
  gives at most 3 for each time it is listed. A document with a PDF gives one entry for
  each of its sections up to 3; the entry at position \<open>i\<close> has the rank \<open>i + 1\<close>, the
  document's file name, and the title and the page of the section at position \<open>i\<close> of
  the document's sections in descending order of their scores, sections of one score in
  the order of the segmentation.
\<close>

theorem collection_ranking_order:
  assumes "challenge1b_input c = Some (Json cfg)" and "find_pdfs_dir c = Some d"
  shows "\<exists>lg out. process_collection c = (lg, Inr out)
    \<and> extracted_sections out =
        sort_key es_importance_rank
          (concat (map (doc_entries d (cfg_persona cfg) (cfg_job cfg)) (cfg_documents cfg)))
    \<and> sorted (map es_importance_rank (extracted_sections out))
    \<and> (\<forall>r. filter (\<lambda>e. es_importance_rank e = r) (extracted_sections out)
            = filter (\<lambda>e. es_importance_rank e = r)
                (concat (map (doc_entries d (cfg_persona cfg) (cfg_job cfg)) (cfg_documents cfg))))
    \<and> (\<forall>f. length (doc_entries d (cfg_persona cfg) (cfg_job cfg) f) \<le> 3
            \<and> length (filter (\<lambda>e. es_document e = f) (extracted_sections out))
                 \<le> 3 * count_list (cfg_documents cfg) f
            \<and> (d f = None \<longrightarrow> doc_entries d (cfg_persona cfg) (cfg_job cfg) f = []))
    \<and> (\<forall>f pgs. d f = Some pgs \<longrightarrow>
          length (doc_entries d (cfg_persona cfg) (cfg_job cfg) f)
            = min 3 (length (identify_sections pgs))
          \<and> (\<forall>i < length (doc_entries d (cfg_persona cfg) (cfg_job cfg) f).
                doc_entries d (cfg_persona cfg) (cfg_job cfg) f ! i
                  = extracted_of f i
                      (fst (ranked_sections f (cfg_persona cfg) (cfg_job cfg) pgs ! i))
                \<and> es_importance_rank (doc_entries d (cfg_persona cfg) (cfg_job cfg) f ! i)
                    = i + 1
                \<and> es_document (doc_entries d (cfg_persona cfg) (cfg_job cfg) f ! i) = f
                \<and> es_section_title (doc_entries d (cfg_persona cfg) (cfg_job cfg) f ! i)
                    = sec_title (fst (ranked_sections f (cfg_persona cfg) (cfg_job cfg) pgs ! i))
                \<and> es_page_number (doc_entries d (cfg_persona cfg) (cfg_job cfg) f ! i)
                    = sec_page_number
                        (fst (ranked_sections f (cfg_persona cfg) (cfg_job cfg) pgs ! i)))
          \<and> sorted (map (\<lambda>x. - snd x) (ranked_sections f (cfg_persona cfg) (cfg_job cfg) pgs))
          \<and> (\<forall>x \<in> set (ranked_sections f (cfg_persona cfg) (cfg_job cfg) pgs).
                snd x = score_section (fst x) (cfg_persona cfg) (cfg_job cfg))
          \<and> (\<forall>v. filter (\<lambda>x. snd x = v) (ranked_sections f (cfg_persona cfg) (cfg_job cfg) pgs)
                = filter (\<lambda>x. snd x = v)
                    (score_sections f (cfg_persona cfg) (cfg_job cfg) (identify_sections pgs)))
          \<and> map fst (score_sections f (cfg_persona cfg) (cfg_job cfg) (identify_sections pgs))
              = map (\<lambda>s. s\<lparr>sec_document := Some f\<rparr>) (identify_sections pgs))"
proof -
  let ?p = "cfg_persona cfg" and ?j = "cfg_job cfg"
  let ?em = "concat (map (doc_entries d ?p ?j) (cfg_documents cfg))"
  let ?out = "\<lparr>out_metadata = \<lparr>md_input_documents = cfg_documents cfg, md_persona = ?p,
                           md_job_to_be_done = ?j\<rparr>,
          extracted_sections = sort_key es_importance_rank ?em,
          subsection_analysis = concat (map (doc_subsections d ?p ?j) (cfg_documents cfg))\<rparr>"
  have pc: "process_collection c =
      (Info_processing_collection # map (doc_log d) (cfg_documents cfg), Inr ?out)"
    by (rule process_collection_ok [OF assms])
  have e: "extracted_sections ?out = sort_key es_importance_rank ?em" by simp
  have s: "sorted (map es_importance_rank (extracted_sections ?out))" by simp
  have st: "\<forall>r. filter (\<lambda>e. es_importance_rank e = r) (extracted_sections ?out)
            = filter (\<lambda>e. es_importance_rank e = r) ?em"
    by (simp add: sort_key_stable)
  have cnt: "\<forall>f. length (doc_entries d ?p ?j f) \<le> 3
            \<and> length (filter (\<lambda>e. es_document e = f) (extracted_sections ?out))
                 \<le> 3 * count_list (cfg_documents cfg) f
            \<and> (d f = None \<longrightarrow> doc_entries d ?p ?j f = [])"
  proof (intro allI conjI impI)
    fix f
    show "length (doc_entries d ?p ?j f) \<le> 3"
      using length_top_sections [of d ?p ?j f] by (simp add: doc_entries_def)
    show "length (filter (\<lambda>e. es_document e = f) (extracted_sections ?out))
            \<le> 3 * count_list (cfg_documents cfg) f"
      using count_entries_per_document [of f d ?p ?j "cfg_documents cfg"]
      by (simp add: length_filter_sort_key)
    show "doc_entries d ?p ?j f = []" if "d f = None"
      using that by (simp add: doc_entries_def top_sections_def)
  qed
  have per: "\<forall>f pgs. d f = Some pgs \<longrightarrow>
          length (doc_entries d ?p ?j f) = min 3 (length (identify_sections pgs))
          \<and> (\<forall>i < length (doc_entries d ?p ?j f).
                doc_entries d ?p ?j f ! i = extracted_of f i (fst (ranked_sections f ?p ?j pgs ! i))
                \<and> es_importance_rank (doc_entries d ?p ?j f ! i) = i + 1
                \<and> es_document (doc_entries d ?p ?j f ! i) = f
                \<and> es_section_title (doc_entries d ?p ?j f ! i)
                    = sec_title (fst (ranked_sections f ?p ?j pgs ! i))
                \<and> es_page_number (doc_entries d ?p ?j f ! i)
                    = sec_page_number (fst (ranked_sections f ?p ?j pgs ! i)))
          \<and> sorted (map (\<lambda>x. - snd x) (ranked_sections f ?p ?j pgs))
          \<and> (\<forall>x \<in> set (ranked_sections f ?p ?j pgs). snd x = score_section (fst x) ?p ?j)
          \<and> (\<forall>v. filter (\<lambda>x. snd x = v) (ranked_sections f ?p ?j pgs)
                = filter (\<lambda>x. snd x = v) (score_sections f ?p ?j (identify_sections pgs)))
          \<and> map fst (score_sections f ?p ?j (identify_sections pgs))
              = map (\<lambda>s. s\<lparr>sec_document := Some f\<rparr>) (identify_sections pgs)"
  proof (intro allI impI)
    fix f pgs
    assume df: "d f = Some pgs"
    have l: "length (doc_entries d ?p ?j f) = min 3 (length (identify_sections pgs))"
      using df
      by (simp add: doc_entries_def top_sections_def enumerate_from0_def ranked_sections_def
          sort_by_score_def score_sections_def min.commute)
    have n: "\<forall>i < length (doc_entries d ?p ?j f).
                doc_entries d ?p ?j f ! i = extracted_of f i (fst (ranked_sections f ?p ?j pgs ! i))
                \<and> es_importance_rank (doc_entries d ?p ?j f ! i) = i + 1
                \<and> es_document (doc_entries d ?p ?j f ! i) = f
                \<and> es_section_title (doc_entries d ?p ?j f ! i)
                    = sec_title (fst (ranked_sections f ?p ?j pgs ! i))
                \<and> es_page_number (doc_entries d ?p ?j f ! i)
                    = sec_page_number (fst (ranked_sections f ?p ?j pgs ! i))"
    proof (intro allI impI)
      fix i
      assume "i < length (doc_entries d ?p ?j f)"
      then have "doc_entries d ?p ?j f ! i
                   = extracted_of f i (fst (ranked_sections f ?p ?j pgs ! i))"
        using doc_entries_nth [of d f pgs i ?p ?j, OF df] by blast
      then show "doc_entries d ?p ?j f ! i = extracted_of f i (fst (ranked_sections f ?p ?j pgs ! i))
                \<and> es_importance_rank (doc_entries d ?p ?j f ! i) = i + 1
                \<and> es_document (doc_entries d ?p ?j f ! i) = f
                \<and> es_section_title (doc_entries d ?p ?j f ! i)
                    = sec_title (fst (ranked_sections f ?p ?j pgs ! i))
                \<and> es_page_number (doc_entries d ?p ?j f ! i)
                    = sec_page_number (fst (ranked_sections f ?p ?j pgs ! i))"
        by (simp add: extracted_of_def)
    qed
    have sc: "\<forall>x \<in> set (ranked_sections f ?p ?j pgs). snd x = score_section (fst x) ?p ?j"
      using ranked_sections_scores by blast
    have mf: "map fst (score_sections f ?p ?j (identify_sections pgs))
              = map (\<lambda>s. s\<lparr>sec_document := Some f\<rparr>) (identify_sections pgs)"
      by (simp add: score_sections_def Let_def comp_def)
    show "length (doc_entries d ?p ?j f) = min 3 (length (identify_sections pgs))
          \<and> (\<forall>i < length (doc_entries d ?p ?j f).
                doc_entries d ?p ?j f ! i = extracted_of f i (fst (ranked_sections f ?p ?j pgs ! i))
                \<and> es_importance_rank (doc_entries d ?p ?j f ! i) = i + 1
                \<and> es_document (doc_entries d ?p ?j f ! i) = f
                \<and> es_section_title (doc_entries d ?p ?j f ! i)
                    = sec_title (fst (ranked_sections f ?p ?j pgs ! i))
                \<and> es_page_number (doc_entries d ?p ?j f ! i)
                    = sec_page_number (fst (ranked_sections f ?p ?j pgs ! i)))
          \<and> sorted (map (\<lambda>x. - snd x) (ranked_sections f ?p ?j pgs))
          \<and> (\<forall>x \<in> set (ranked_sections f ?p ?j pgs). snd x = score_section (fst x) ?p ?j)
          \<and> (\<forall>v. filter (\<lambda>x. snd x = v) (ranked_sections f ?p ?j pgs)
                = filter (\<lambda>x. snd x = v) (score_sections f ?p ?j (identify_sections pgs)))
          \<and> map fst (score_sections f ?p ?j (identify_sections pgs))
              = map (\<lambda>s. s\<lparr>sec_document := Some f\<rparr>) (identify_sections pgs)"
      using l n sc mf ranked_sections_sorted [of f ?p ?j pgs] by blast
  qed
  show ?thesis
    apply (rule exI [of _ "Info_processing_collection # map (doc_log d) (cfg_documents cfg)"])
    apply (rule exI [of _ ?out])
    using pc e s st cnt per apply blast
    done
qed

text \<open>
  The collection \<open>ranking_example\<close>: of the four sections of \<open>guide.pdf\<close> three are
  emitted, \<open>Edit export share\<close> before \<open>Form\<close> by their floats and \<open>Alpha\<close>, which
  precedes \<open>Beta\<close> in the document and has its score; the one section of \<open>notes.pdf\<close>
  stands between the ranks 1 and 2 of \<open>guide.pdf\<close>.
\<close>

theorem collection_ranking_order_witness:
  "\<exists>lg out. process_collection ranking_example = (lg, Inr out)
     \<and> extracted_sections out =
          [\<lparr>es_document = ''guide.pdf'', es_section_title = ''Edit export share'',
            es_importance_rank = 1, es_page_number = 1\<rparr>,
           \<lparr>es_document = ''notes.pdf'', es_section_title = ''Other'',
            es_importance_rank = 1, es_page_number = 1\<rparr>,
           \<lparr>es_document = ''guide.pdf'', es_section_title = ''Form'',
            es_importance_rank = 2, es_page_number = 1\<rparr>,
           \<lparr>es_document = ''guide.pdf'', es_section_title = ''Alpha'',
            es_importance_rank = 3, es_page_number = 2\<rparr>]
     \<and> sorted (map es_importance_rank (extracted_sections out))
     \<and> length (filter (\<lambda>e. es_document e = ''guide.pdf'') (extracted_sections out)) \<le> 3"
proof -
  let ?d = "[''guide.pdf'' \<mapsto>
                [(1, ''Form\<newline>signatures\<newline>Edit export share\<newline>xyz''),
                 (2, ''Alpha\<newline>one two six\<newline>Beta\<newline>one two six'')],
              ''notes.pdf'' \<mapsto> [(1::int, ''Other\<newline>qux'')]]"
  let ?cfg = "\<lparr>cfg_documents = [''guide.pdf'', ''notes.pdf''],
               cfg_persona = ''hr professional'', cfg_job = ''''\<rparr>"
  have h1: "challenge1b_input ranking_example = Some (Json ?cfg)"
    by (simp add: ranking_example_def)
  have h2: "find_pdfs_dir ranking_example = Some ?d"
    by (simp add: ranking_example_def find_pdfs_dir_def)
  obtain lg out where o: "process_collection ranking_example = (lg, Inr out)"
    "sorted (map es_importance_rank (extracted_sections out))"
    "\<forall>f. length (doc_entries ?d (cfg_persona ?cfg) (cfg_job ?cfg) f) \<le> 3
         \<and> length (filter (\<lambda>e. es_document e = f) (extracted_sections out))
              \<le> 3 * count_list (cfg_documents ?cfg) f
         \<and> (?d f = None \<longrightarrow> doc_entries ?d (cfg_persona ?cfg) (cfg_job ?cfg) f = [])"
    using collection_ranking_order [OF h1 h2] by blast
  from o(3) have "length (filter (\<lambda>e. es_document e = ''guide.pdf'') (extracted_sections out))
      \<le> 3 * count_list (cfg_documents ?cfg) ''guide.pdf''"
    by blast
  then have c: "length (filter (\<lambda>e. es_document e = ''guide.pdf'') (extracted_sections out)) \<le> 3"
    by simp
  from o(1) have "snd (process_collection ranking_example) = Inr out" by simp
  then have x: "extracted_sections out =
          [\<lparr>es_document = ''guide.pdf'', es_section_title = ''Edit export share'',
            es_importance_rank = 1, es_page_number = 1\<rparr>,
           \<lparr>es_document = ''notes.pdf'', es_section_title = ''Other'',
            es_importance_rank = 1, es_page_number = 1\<rparr>,
           \<lparr>es_document = ''guide.pdf'', es_section_title = ''Form'',
            es_importance_rank = 2, es_page_number = 1\<rparr>,
           \<lparr>es_document = ''guide.pdf'', es_section_title = ''Alpha'',
            es_importance_rank = 3, es_page_number = 2\<rparr>]"
    unfolding ranking_run by auto
  show ?thesis
    by (rule exI [of _ lg], rule exI [of _ out]) (simp only: o(1) o(2) c x [symmetric] simp_thms)
qed

subsection \<open>Missing files\<close>

lemma concat_skip_missing:
  "concat (map (doc_entries d p j) docs) = concat (map (doc_entries d p j) (present_documents d docs))
   \<and> concat (map (doc_subsections d p j) docs)
       = concat (map (doc_subsections d p j) (present_documents d docs))"
  by (induction docs)
    (auto simp: present_documents_def doc_entries_def doc_subsections_def top_sections_def)

lemma find_pdfs_dir_None: "find_pdfs_dir c = None \<longleftrightarrow> dir_PDFs c = None \<and> dir_PDFS c = None"
  by (simp add: find_pdfs_dir_def split: option.splits)

text \<open>
  Claim C9: with its configuration and a PDF directory (\<open>PDFs\<close>, or \<open>PDFS\<close> when \<open>PDFs\<close>
  does not exist), the run returns an output; the output is the one of the documents
  whose PDF exists, a warning is logged for every other document, and \<open>main\<close> saves the
  output and exits with 0. Without the configuration file, or without both
  directories, \<open>process_collection\<close> raises; whenever it raises, \<open>main\<close> logs the error,
  saves nothing and exits with 1.
\<close>

theorem missing_pdf_skipped_missing_dir_fatal:
  "(challenge1b_input c = Some (Json cfg) \<and> find_pdfs_dir c = Some d \<longrightarrow>
      (\<exists>lg out. process_collection c = (lg, Inr out)
         \<and> extracted_sections out =
             sort_key es_importance_rank
               (concat (map (doc_entries d (cfg_persona cfg) (cfg_job cfg))
                  (present_documents d (cfg_documents cfg))))
         \<and> subsection_analysis out =
             concat (map (doc_subsections d (cfg_persona cfg) (cfg_job cfg))
               (present_documents d (cfg_documents cfg)))
         \<and> (\<forall>f \<in> set (cfg_documents cfg).
               if d f = None then Warning_pdf_not_found f \<in> set lg
               else Info_processing_pdf f \<in> set lg)
         \<and> (length argv \<ge> 2 \<and> fs (argv ! 1) = Some c \<and> output_writable c \<longrightarrow>
               saved_output (main argv fs) = Some out \<and> exit_status (main argv fs) = 0)))
   \<and> (challenge1b_input c = None \<longrightarrow>
         snd (process_collection c) = Inl Input_file_not_found)
   \<and> (challenge1b_input c = Some (Json cfg) \<and> dir_PDFs c = None \<and> dir_PDFS c = None \<longrightarrow>
         snd (process_collection c) = Inl PDFs_directory_not_found)
   \<and> (length argv \<ge> 2 \<and> fs (argv ! 1) = Some c \<and> snd (process_collection c) = Inl e \<longrightarrow>
         exit_status (main argv fs) = 1 \<and> saved_output (main argv fs) = None
         \<and> Error_processing_collection e \<in> set (fst (main argv fs)))"
proof (intro conjI impI)
  assume a: "challenge1b_input c = Some (Json cfg) \<and> find_pdfs_dir c = Some d"
  let ?p = "cfg_persona cfg" and ?j = "cfg_job cfg"
  let ?lg = "Info_processing_collection # map (doc_log d) (cfg_documents cfg)"
  let ?out = "\<lparr>out_metadata = \<lparr>md_input_documents = cfg_documents cfg, md_persona = ?p,
                           md_job_to_be_done = ?j\<rparr>,
          extracted_sections =
            sort_key es_importance_rank (concat (map (doc_entries d ?p ?j) (cfg_documents cfg))),
          subsection_analysis = concat (map (doc_subsections d ?p ?j) (cfg_documents cfg))\<rparr>"
  have pc: "process_collection c = (?lg, Inr ?out)"
    using a process_collection_ok by blast
  have es: "extracted_sections ?out =
             sort_key es_importance_rank
               (concat (map (doc_entries d ?p ?j) (present_documents d (cfg_documents cfg))))"
    using concat_skip_missing [of d ?p ?j "cfg_documents cfg"] by simp
  have sa: "subsection_analysis ?out =
             concat (map (doc_subsections d ?p ?j) (present_documents d (cfg_documents cfg)))"
    using concat_skip_missing [of d ?p ?j "cfg_documents cfg"] by simp
  have lg: "\<forall>f \<in> set (cfg_documents cfg).
               if d f = None then Warning_pdf_not_found f \<in> set ?lg
               else Info_processing_pdf f \<in> set ?lg"
  proof
    fix f assume "f \<in> set (cfg_documents cfg)"
    then have "doc_log d f \<in> doc_log d ` set (cfg_documents cfg)" by (rule imageI)
    then have mem: "doc_log d f \<in> set ?lg" by simp
    show "if d f = None then Warning_pdf_not_found f \<in> set ?lg
               else Info_processing_pdf f \<in> set ?lg"
    proof (cases "d f = None")
      case True
      then have w: "doc_log d f = Warning_pdf_not_found f" by (simp add: doc_log_def)
      show ?thesis unfolding if_P [OF True] using mem unfolding w .
    next
      case False
      then have w: "doc_log d f = Info_processing_pdf f" by (simp add: doc_log_def)
      show ?thesis unfolding if_not_P [OF False] using mem unfolding w .
    qed
  qed
  have mn: "length argv \<ge> 2 \<and> fs (argv ! 1) = Some c \<and> output_writable c \<longrightarrow>
               saved_output (main argv fs) = Some ?out \<and> exit_status (main argv fs) = 0"
    using pc by (simp add: main_def saved_output_def exit_status_def)
  show "\<exists>lg out. process_collection c = (lg, Inr out)
         \<and> extracted_sections out =
             sort_key es_importance_rank
               (concat (map (doc_entries d ?p ?j) (present_documents d (cfg_documents cfg))))
         \<and> subsection_analysis out =
             concat (map (doc_subsections d ?p ?j) (present_documents d (cfg_documents cfg)))
         \<and> (\<forall>f \<in> set (cfg_documents cfg).
               if d f = None then Warning_pdf_not_found f \<in> set lg
               else Info_processing_pdf f \<in> set lg)
         \<and> (length argv \<ge> 2 \<and> fs (argv ! 1) = Some c \<and> output_writable c \<longrightarrow>
               saved_output (main argv fs) = Some out \<and> exit_status (main argv fs) = 0)"
    apply (rule exI [of _ ?lg])
    apply (rule exI [of _ ?out])
    using pc es sa lg mn apply blast
    done
next
  assume "challenge1b_input c = None"
  then show "snd (process_collection c) = Inl Input_file_not_found"
    by (simp add: process_collection_def)
next
  assume "challenge1b_input c = Some (Json cfg) \<and> dir_PDFs c = None \<and> dir_PDFS c = None"
  then show "snd (process_collection c) = Inl PDFs_directory_not_found"
    by (simp add: process_collection_def find_pdfs_dir_def)
next
  assume a: "length argv \<ge> 2 \<and> fs (argv ! 1) = Some c \<and> snd (process_collection c) = Inl e"
  then show "exit_status (main argv fs) = 1" 
    by (cases "process_collection c") (simp add: main_def exit_status_def)
  from a show "saved_output (main argv fs) = None"
    by (cases "process_collection c") (simp add: main_def saved_output_def)
  from a show "Error_processing_collection e \<in> set (fst (main argv fs))"
    by (cases "process_collection c") (simp add: main_def)
qed

text \<open>
  The example collection, where \<open>gone.pdf\<close> does not exist; the same collection without
  its configuration file; and without its directory \<open>PDFS\<close>.
\<close>

theorem missing_pdf_skipped_missing_dir_fatal_witness:
  "(\<exists>lg out. process_collection example_collection = (lg, Inr out)
      \<and> Warning_pdf_not_found ''gone.pdf'' \<in> set lg
      \<and> Info_processing_pdf ''b.pdf'' \<in> set lg
      \<and> saved_output (main [''process_collections_final.py'', ''Collection 1'']
                            [''Collection 1'' \<mapsto> example_collection]) = Some out
      \<and> exit_status (main [''process_collections_final.py'', ''Collection 1'']
                           [''Collection 1'' \<mapsto> example_collection]) = 0)
   \<and> exit_status (main [''process_collections_final.py'', ''Collection 1'']
        [''Collection 1'' \<mapsto> example_collection\<lparr>challenge1b_input := None\<rparr>]) = 1
   \<and> exit_status (main [''process_collections_final.py'', ''Collection 1'']
        [''Collection 1'' \<mapsto> example_collection\<lparr>dir_PDFS := None\<rparr>]) = 1"
proof -
  let ?argv = "[''process_collections_final.py'', ''Collection 1'']"
  let ?d = "[''a.pdf'' \<mapsto> [(1, ''Intro\<newline>foo\<newline>Next\<newline>bar baz'')],
             ''b.pdf'' \<mapsto> [(1::int, ''Other\<newline>qux'')]]"
  let ?cfg = "\<lparr>cfg_documents = [''a.pdf'', ''gone.pdf'', ''b.pdf''],
               cfg_persona = ''Reader'', cfg_job = ''Read''\<rparr>"
  have h1: "challenge1b_input example_collection = Some (Json ?cfg)
            \<and> find_pdfs_dir example_collection = Some ?d"
    by (simp add: example_collection_def find_pdfs_dir_def)
  have h2: "length ?argv \<ge> 2 \<and> [''Collection 1'' \<mapsto> example_collection] (?argv ! 1) = Some example_collection
            \<and> output_writable example_collection"
    by (simp add: example_collection_def)
  have d: "?d ''gone.pdf'' = None" "?d ''b.pdf'' \<noteq> None" by simp_all
  have a: "\<exists>lg out. process_collection example_collection = (lg, Inr out)
      \<and> Warning_pdf_not_found ''gone.pdf'' \<in> set lg
      \<and> Info_processing_pdf ''b.pdf'' \<in> set lg
      \<and> saved_output (main ?argv [''Collection 1'' \<mapsto> example_collection]) = Some out
      \<and> exit_status (main ?argv [''Collection 1'' \<mapsto> example_collection]) = 0"
    using missing_pdf_skipped_missing_dir_fatal [of example_collection ?cfg ?d ?argv "[''Collection 1'' \<mapsto> example_collection]"] h1 h2 d
    by (fastforce split: if_splits)
  have b: "exit_status (main ?argv
        [''Collection 1'' \<mapsto> example_collection\<lparr>challenge1b_input := None\<rparr>]) = 1"
    using missing_pdf_skipped_missing_dir_fatal [of "example_collection\<lparr>challenge1b_input := None\<rparr>" ?cfg ?d ?argv
      "[''Collection 1'' \<mapsto> example_collection\<lparr>challenge1b_input := None\<rparr>]" Input_file_not_found]
    by simp
  have c: "exit_status (main ?argv
        [''Collection 1'' \<mapsto> example_collection\<lparr>dir_PDFS := None\<rparr>]) = 1"
    using missing_pdf_skipped_missing_dir_fatal [of "example_collection\<lparr>dir_PDFS := None\<rparr>" ?cfg ?d ?argv
      "[''Collection 1'' \<mapsto> example_collection\<lparr>dir_PDFS := None\<rparr>]" PDFs_directory_not_found]
    by (simp add: example_collection_def)
  show ?thesis using a b c by blast
qed

subsection \<open>The two lists of the output\<close>

lemma entries_subsections_aligned:
  "map (\<lambda>a. (sa_document a, sa_page_number a)) (doc_subsections d p j f)
     = map (\<lambda>e. (es_document e, es_page_number e)) (doc_entries d p j f)"
  by (simp add: doc_subsections_def doc_entries_def subsection_of_def extracted_of_def
      split_def)

lemma concat_aligned:
  "map (\<lambda>a. (sa_document a, sa_page_number a)) (concat (map (doc_subsections d p j) docs))
     = map (\<lambda>e. (es_document e, es_page_number e)) (concat (map (doc_entries d p j) docs))"
  by (induction docs) (simp_all add: entries_subsections_aligned)

lemma example_run:
  "snd (process_collection example_collection) =
     Inr \<lparr>out_metadata = \<lparr>md_input_documents = [''a.pdf'', ''gone.pdf'', ''b.pdf''],
                           md_persona = ''Reader'', md_job_to_be_done = ''Read''\<rparr>,
          extracted_sections =
            [\<lparr>es_document = ''a.pdf'', es_section_title = ''Next'', es_importance_rank = 1,
              es_page_number = 1\<rparr>,
             \<lparr>es_document = ''b.pdf'', es_section_title = ''Other'', es_importance_rank = 1,
              es_page_number = 1\<rparr>,
             \<lparr>es_document = ''a.pdf'', es_section_title = ''Intro'', es_importance_rank = 2,
              es_page_number = 1\<rparr>],
          subsection_analysis =
            [\<lparr>sa_document = ''a.pdf'', sa_refined_text = ''bar baz'', sa_page_number = 1\<rparr>,
             \<lparr>sa_document = ''a.pdf'', sa_refined_text = ''foo'', sa_page_number = 1\<rparr>,
             \<lparr>sa_document = ''b.pdf'', sa_refined_text = ''qux'', sa_page_number = 1\<rparr>]\<rparr>"
  by (simp add: process_collection_def example_collection_def find_pdfs_dir_def sections_eval
      score_sections_def score_section_def keyword_matches_def title_relevance_def all_keywords_def
      get_list_def persona_keywords_def job_keywords_def sample_titles_def bonus_terms_def
      section_content_text_def sort_by_score_def extracted_of_def subsection_of_def
      extract_refined_text_def float_eval split del: if_split)

text \<open>
  Claim C10: the two lists of an output have the same length; \<open>subsection_analysis\<close> is
  in the order of emission, entry by entry for the same document and page as the emitted
  \<open>extracted_sections\<close> entries, while \<open>extracted_sections\<close> is those entries sorted by
  rank. In the example collection the entry at index 1 of \<open>extracted_sections\<close> is of
  \<open>b.pdf\<close> and the entry at index 1 of \<open>subsection_analysis\<close> is of \<open>a.pdf\<close>.
\<close>

theorem subsection_analysis_emission_order:
  "(challenge1b_input c = Some (Json cfg) \<and> find_pdfs_dir c = Some d \<longrightarrow>
      (\<exists>lg out. process_collection c = (lg, Inr out)
         \<and> length (subsection_analysis out) = length (extracted_sections out)
         \<and> extracted_sections out =
             sort_key es_importance_rank
               (concat (map (doc_entries d (cfg_persona cfg) (cfg_job cfg)) (cfg_documents cfg)))
         \<and> subsection_analysis out =
             concat (map (doc_subsections d (cfg_persona cfg) (cfg_job cfg)) (cfg_documents cfg))
         \<and> map (\<lambda>a. (sa_document a, sa_page_number a)) (subsection_analysis out)
             = map (\<lambda>e. (es_document e, es_page_number e))
                 (concat (map (doc_entries d (cfg_persona cfg) (cfg_job cfg))
                    (cfg_documents cfg)))))
   \<and> (\<exists>out. snd (process_collection example_collection) = Inr out
         \<and> es_document (extracted_sections out ! 1) = ''b.pdf''
         \<and> sa_document (subsection_analysis out ! 1) = ''a.pdf'')"
proof (intro conjI impI)
  assume a: "challenge1b_input c = Some (Json cfg) \<and> find_pdfs_dir c = Some d"
  let ?p = "cfg_persona cfg" and ?j = "cfg_job cfg"
  let ?lg = "Info_processing_collection # map (doc_log d) (cfg_documents cfg)"
  let ?out = "\<lparr>out_metadata = \<lparr>md_input_documents = cfg_documents cfg, md_persona = ?p,
                           md_job_to_be_done = ?j\<rparr>,
          extracted_sections =
            sort_key es_importance_rank (concat (map (doc_entries d ?p ?j) (cfg_documents cfg))),
          subsection_analysis = concat (map (doc_subsections d ?p ?j) (cfg_documents cfg))\<rparr>"
  have pc: "process_collection c = (?lg, Inr ?out)"
    using a process_collection_ok by blast
  have al: "map (\<lambda>a. (sa_document a, sa_page_number a)) (subsection_analysis ?out)
             = map (\<lambda>e. (es_document e, es_page_number e))
                 (concat (map (doc_entries d ?p ?j) (cfg_documents cfg)))"
    by (simp add: concat_aligned)
  have "length (map (\<lambda>a. (sa_document a, sa_page_number a)) (subsection_analysis ?out))
          = length (map (\<lambda>e. (es_document e, es_page_number e))
                 (concat (map (doc_entries d ?p ?j) (cfg_documents cfg))))"
    by (simp only: al)
  then have len: "length (subsection_analysis ?out) = length (extracted_sections ?out)"
    by (simp del: length_concat)
  show "\<exists>lg out. process_collection c = (lg, Inr out)
         \<and> length (subsection_analysis out) = length (extracted_sections out)
         \<and> extracted_sections out =
             sort_key es_importance_rank (concat (map (doc_entries d ?p ?j) (cfg_documents cfg)))
         \<and> subsection_analysis out = concat (map (doc_subsections d ?p ?j) (cfg_documents cfg))
         \<and> map (\<lambda>a. (sa_document a, sa_page_number a)) (subsection_analysis out)
             = map (\<lambda>e. (es_document e, es_page_number e))
                 (concat (map (doc_entries d ?p ?j) (cfg_documents cfg)))"
    apply (rule exI [of _ ?lg])
    apply (rule exI [of _ ?out])
    using pc len al apply simp
    done
next
  show "\<exists>out. snd (process_collection example_collection) = Inr out
         \<and> es_document (extracted_sections out ! 1) = ''b.pdf''
         \<and> sa_document (subsection_analysis out ! 1) = ''a.pdf''"
    by (simp add: example_run)
qed

text \<open>The example collection: both lists have 3 entries.\<close>

theorem subsection_analysis_emission_order_witness:
  "\<exists>lg out. process_collection example_collection = (lg, Inr out)
     \<and> length (subsection_analysis out) = length (extracted_sections out)
     \<and> map sa_document (subsection_analysis out) = [''a.pdf'', ''a.pdf'', ''b.pdf'']
     \<and> map es_document (extracted_sections out) = [''a.pdf'', ''b.pdf'', ''a.pdf'']"
proof -
  let ?d = "[''a.pdf'' \<mapsto> [(1, ''Intro\<newline>foo\<newline>Next\<newline>bar baz'')],
             ''b.pdf'' \<mapsto> [(1::int, ''Other\<newline>qux'')]]"
  let ?cfg = "\<lparr>cfg_documents = [''a.pdf'', ''gone.pdf'', ''b.pdf''],
               cfg_persona = ''Reader'', cfg_job = ''Read''\<rparr>"
  have h: "challenge1b_input example_collection = Some (Json ?cfg)
           \<and> find_pdfs_dir example_collection = Some ?d"
    by (simp add: example_collection_def find_pdfs_dir_def)
  obtain lg out where o: "process_collection example_collection = (lg, Inr out)"
    "length (subsection_analysis out) = length (extracted_sections out)"
    using subsection_analysis_emission_order [of example_collection ?cfg ?d] h by blast
  from o(1) have "snd (process_collection example_collection) = Inr out" by simp
  then have m: "map sa_document (subsection_analysis out) = [''a.pdf'', ''a.pdf'', ''b.pdf'']
     \<and> map es_document (extracted_sections out) = [''a.pdf'', ''b.pdf'', ''a.pdf'']"
    unfolding example_run by auto
  show ?thesis
    by (rule exI [of _ lg], rule exI [of _ out]) (simp add: o m)
qed

end
